theory Spec2Isabelle
  imports Main "HOL-Library.AList"
begin

section \<open>Values\<close>

text \<open>
  The engine handles values of TypeScript type \<open>unknown\<close>. They come out of \<open>JSON.parse\<close>:
  \<open>undefined\<close>, \<open>null\<close>, booleans, numbers, strings, arrays and plain objects; and a
  property read can also bring in what plain objects and arrays inherit: a built-in
  function (given by its \<open>name\<close> and its \<open>length\<close>), \<open>Object.prototype\<close> and
  \<open>Array.prototype\<close>. An object is the list of its own properties in insertion order.
  Numbers are the integers; \<open>String\<close> prints them in decimal.
\<close>

datatype json =
    JUndefined
  | JNull
  | JBool bool
  | JNum int
  | JStr string
  | JArr "json list"
  | JObj "(string \<times> json) list"
  | JFunction string nat
  | JObjectPrototype
  | JArrayPrototype

type_synonym obj = "(string \<times> json) list"

text \<open>A call either throws or returns.\<close>

datatype 'a completion = Throws | Returns 'a

text \<open>\<open>!v\<close> is false exactly on the truthy values.\<close>

fun truthy :: "json \<Rightarrow> bool" where
  "truthy JUndefined = False"
| "truthy JNull = False"
| "truthy (JBool b) = b"
| "truthy (JNum n) = (n \<noteq> 0)"
| "truthy (JStr s) = (s \<noteq> [])"
| "truthy v = True"

text \<open>\<open>typeof v === "object"\<close>: objects, arrays and \<open>null\<close>; a function is not.\<close>

fun typeof_object :: "json \<Rightarrow> bool" where
  "typeof_object JNull = True"
| "typeof_object (JArr xs) = True"
| "typeof_object (JObj kvs) = True"
| "typeof_object JObjectPrototype = True"
| "typeof_object JArrayPrototype = True"
| "typeof_object v = False"

text \<open>\<open>v === null || v === undefined\<close>.\<close>

fun nullish :: "json \<Rightarrow> bool" where
  "nullish JUndefined = True"
| "nullish JNull = True"
| "nullish v = False"

text \<open>A truthy optional string (\<open>if (config.requestParam)\<close>): present and not empty.\<close>

fun truthy_str :: "string option \<Rightarrow> bool" where
  "truthy_str None = False"
| "truthy_str (Some s) = (s \<noteq> [])"

subsection \<open>Decimal numerals and array indices\<close>

definition digit_chars :: string where
  "digit_chars = ''0123456789''"

definition is_digit :: "char \<Rightarrow> bool" where
  "is_digit c = (c \<in> set digit_chars)"

fun digit_of :: "nat \<Rightarrow> char" where
  "digit_of n = digit_chars ! (n mod 10)"

fun show_nat :: "nat \<Rightarrow> string" where
  "show_nat n = (if n < 10 then [digit_of n] else show_nat (n div 10) @ [digit_of n])"

declare show_nat.simps [simp del]

definition show_int :: "int \<Rightarrow> string" where
  "show_int i = (if i < 0 then CHR ''-'' # show_nat (nat (- i)) else show_nat (nat i))"

fun digit_val :: "char \<Rightarrow> nat" where
  "digit_val c = length (takeWhile (\<lambda>d. d \<noteq> c) digit_chars)"

definition dec_val :: "string \<Rightarrow> nat" where
  "dec_val s = foldl (\<lambda>a c. 10 * a + digit_val c) 0 s"

text \<open>
  A property name addresses an array element when it is the canonical decimal form of the
  index: \<open>"0"\<close>, or digits without a leading zero.
\<close>

definition array_index :: "string \<Rightarrow> nat option" where
  "array_index s =
     (if s \<noteq> [] \<and> list_all is_digit s \<and> (s = ''0'' \<or> hd s \<noteq> CHR ''0'')
      then Some (dec_val s) else None)"

subsection \<open>Property reads\<close>

text \<open>
  What plain objects, arrays and functions inherit (ECMAScript 2023): the methods of
  \<open>Object.prototype\<close>, \<open>Array.prototype\<close> and \<open>Function.prototype\<close> and the static
  methods of the constructors \<open>Object\<close> and \<open>Array\<close>, each with its \<open>length\<close>.
\<close>

definition object_prototype_methods :: "(string \<times> nat) list" where
  "object_prototype_methods =
     [(''__defineGetter__'', 2), (''__defineSetter__'', 2), (''hasOwnProperty'', 1),
      (''__lookupGetter__'', 1), (''__lookupSetter__'', 1), (''isPrototypeOf'', 1),
      (''propertyIsEnumerable'', 1), (''toString'', 0), (''valueOf'', 0),
      (''toLocaleString'', 0)]"

definition array_prototype_methods :: "(string \<times> nat) list" where
  "array_prototype_methods =
     [(''at'', 1), (''concat'', 1), (''copyWithin'', 2), (''fill'', 1), (''find'', 1),
      (''findIndex'', 1), (''findLast'', 1), (''findLastIndex'', 1), (''lastIndexOf'', 1),
      (''pop'', 0), (''push'', 1), (''reverse'', 0), (''shift'', 0), (''unshift'', 1),
      (''slice'', 2), (''sort'', 1), (''splice'', 2), (''includes'', 1), (''indexOf'', 1),
      (''join'', 1), (''keys'', 0), (''entries'', 0), (''values'', 0), (''forEach'', 1),
      (''filter'', 1), (''flat'', 0), (''flatMap'', 1), (''map'', 1), (''every'', 1),
      (''some'', 1), (''reduce'', 1), (''reduceRight'', 1), (''toLocaleString'', 0),
      (''toString'', 0), (''toReversed'', 0), (''toSorted'', 1), (''toSpliced'', 2),
      (''with'', 2)]"

definition function_prototype_methods :: "(string \<times> nat) list" where
  "function_prototype_methods = [(''apply'', 2), (''bind'', 1), (''call'', 1), (''toString'', 0)]"

definition object_statics :: "(string \<times> nat) list" where
  "object_statics =
     [(''assign'', 2), (''create'', 2), (''defineProperties'', 2), (''defineProperty'', 3),
      (''entries'', 1), (''freeze'', 1), (''fromEntries'', 1),
      (''getOwnPropertyDescriptor'', 2), (''getOwnPropertyDescriptors'', 1),
      (''getOwnPropertyNames'', 1), (''getOwnPropertySymbols'', 1), (''getPrototypeOf'', 1),
      (''hasOwn'', 2), (''is'', 2), (''isExtensible'', 1), (''isFrozen'', 1),
      (''isSealed'', 1), (''keys'', 1), (''preventExtensions'', 1), (''seal'', 1),
      (''setPrototypeOf'', 2), (''values'', 1)]"

definition array_statics :: "(string \<times> nat) list" where
  "array_statics = [(''from'', 1), (''isArray'', 1), (''of'', 0)]"

definition method_of :: "(string \<times> nat) list \<Rightarrow> string \<Rightarrow> json option" where
  "method_of table k = (case map_of table k of Some a \<Rightarrow> Some (JFunction k a) | None \<Rightarrow> None)"

text \<open>
  A read that has reached \<open>Object.prototype\<close>. The getter of \<open>__proto__\<close> gives the
  prototype of the object the read started from, \<open>proto\<close>.
\<close>

definition object_prototype_get :: "json \<Rightarrow> string \<Rightarrow> json" where
  "object_prototype_get proto k =
     (if k = ''__proto__'' then proto
      else if k = ''constructor'' then JFunction ''Object'' 1
      else (case method_of object_prototype_methods k of Some f \<Rightarrow> f | None \<Rightarrow> JUndefined))"

text \<open>A read that has reached \<open>Array.prototype\<close> (itself an array of length 0).\<close>

definition array_prototype_get :: "json \<Rightarrow> string \<Rightarrow> json" where
  "array_prototype_get proto k =
     (if k = ''length'' then JNum 0
      else if k = ''constructor'' then JFunction ''Array'' 1
      else (case method_of array_prototype_methods k of
              Some f \<Rightarrow> f
            | None \<Rightarrow> object_prototype_get proto k))"

text \<open>
  A read that has reached a built-in function: its own \<open>length\<close> and \<open>name\<close>, the
  \<open>prototype\<close> and the static methods of a constructor, then \<open>Function.prototype\<close>
  (itself a function, without a name), whose \<open>caller\<close> and \<open>arguments\<close> throw, then
  \<open>Object.prototype\<close>.
\<close>

definition function_get :: "string \<Rightarrow> nat \<Rightarrow> json \<Rightarrow> string \<Rightarrow> json completion" where
  "function_get n a proto k =
     (if k = ''length'' then Returns (JNum (int a))
      else if k = ''name'' then Returns (JStr n)
      else if k = ''prototype'' \<and> n = ''Object'' then Returns JObjectPrototype
      else if k = ''prototype'' \<and> n = ''Array'' then Returns JArrayPrototype
      else if k = ''prototype'' \<and> n = ''Function'' then Returns (JFunction [] 0)
      else if n = ''Object'' \<and> method_of object_statics k \<noteq> None
           then Returns (the (method_of object_statics k))
      else if n = ''Array'' \<and> method_of array_statics k \<noteq> None
           then Returns (the (method_of array_statics k))
      else if k = ''caller'' \<or> k = ''arguments'' then Throws
      else if k = ''constructor'' then Returns (JFunction ''Function'' 1)
      else (case method_of function_prototype_methods k of
              Some f \<Rightarrow> Returns f
            | None \<Rightarrow> Returns (object_prototype_get proto k)))"

text \<open>
  \<open>holder[k]\<close> seen from an object whose prototype is \<open>proto\<close>, the read having reached
  \<open>holder\<close> on the prototype chain: an own property of \<open>holder\<close>, or what it inherits.
\<close>

fun chain_get :: "json \<Rightarrow> json \<Rightarrow> string \<Rightarrow> json completion" where
  "chain_get (JObj kvs) proto k =
     Returns (case map_of kvs k of Some v \<Rightarrow> v | None \<Rightarrow> object_prototype_get proto k)"
| "chain_get (JArr xs) proto k =
     Returns (if k = ''length'' then JNum (int (length xs))
              else (case array_index k of
                      Some i \<Rightarrow> (if i < length xs then xs ! i else array_prototype_get proto k)
                    | None \<Rightarrow> array_prototype_get proto k))"
| "chain_get JObjectPrototype proto k = Returns (object_prototype_get proto k)"
| "chain_get JArrayPrototype proto k = Returns (array_prototype_get proto k)"
| "chain_get (JFunction n a) proto k = function_get n a proto k"
| "chain_get v proto k = Returns JUndefined"

text \<open>
  \<open>current[part]\<close> on a value whose \<open>typeof\<close> is \<open>"object"\<close> and that is not \<open>null\<close>: a
  plain object, an array or one of the two prototypes. (No such read throws.)
\<close>

fun get_prop :: "json \<Rightarrow> string \<Rightarrow> json" where
  "get_prop (JObj kvs) k =
     (case map_of kvs k of Some v \<Rightarrow> v | None \<Rightarrow> object_prototype_get JObjectPrototype k)"
| "get_prop (JArr xs) k =
     (if k = ''length'' then JNum (int (length xs))
      else (case array_index k of
              Some i \<Rightarrow> (if i < length xs then xs ! i else array_prototype_get JArrayPrototype k)
            | None \<Rightarrow> array_prototype_get JArrayPrototype k))"
| "get_prop JObjectPrototype k = object_prototype_get JNull k"
| "get_prop JArrayPrototype k = array_prototype_get JObjectPrototype k"
| "get_prop v k = JUndefined"

text \<open>
  \<open>ob[k] = v\<close> on an object with the ordinary prototype, of which only the own properties
  are read afterwards (query parameters, a request body). A key \<open>__proto__\<close> that is not
  an own property goes to the setter of \<open>Object.prototype\<close>, which adds no own property.
\<close>

definition assign :: "string \<Rightarrow> json \<Rightarrow> obj \<Rightarrow> obj" where
  "assign k v ob =
     (if k = ''__proto__'' \<and> map_of ob k = None then ob else AList.update k v ob)"

subsection \<open>\<open>String(v)\<close>\<close>

text \<open>
  \<open>String\<close> of an object calls its \<open>toString\<close>: for a plain object the inherited one,
  unless the object has an own property of that name, which is no function: then the
  conversion throws a \<open>TypeError\<close>. An array joins the texts of its elements. A built-in
  function prints as V8 prints it.
\<close>

fun js_String :: "json \<Rightarrow> string option"
  and js_join :: "json list \<Rightarrow> string option" where
  "js_String JUndefined = Some ''undefined''"
| "js_String JNull = Some ''null''"
| "js_String (JBool b) = Some (if b then ''true'' else ''false'')"
| "js_String (JNum n) = Some (show_int n)"
| "js_String (JStr s) = Some s"
| "js_String (JArr xs) = js_join xs"
| "js_String (JObj kvs) =
     (if map_of kvs ''toString'' = None then Some ''[object Object]'' else None)"
| "js_String (JFunction n a) = Some (''function '' @ n @ ''() { [native code] }'')"
| "js_String JObjectPrototype = Some ''[object Object]''"
| "js_String JArrayPrototype = Some []"
| "js_join [] = Some []"
| "js_join [x] = (if nullish x then Some [] else js_String x)"
| "js_join (x # y # ys) =
     (case (if nullish x then Some [] else js_String x) of
        None \<Rightarrow> None
      | Some s \<Rightarrow> (case js_join (y # ys) of
                     None \<Rightarrow> None
                   | Some r \<Rightarrow> Some (s @ CHR '','' # r)))"

definition cannot_convert :: string where
  "cannot_convert = ''Cannot convert object to primitive value''"

section \<open>Templates\<close>

text \<open>\<open>\w\<close>: an ASCII letter, a digit or the underscore.\<close>

definition word_chars :: string where
  "word_chars = ''abcdefghijklmnopqrstuvwxyzABCDEFGHIJKLMNOPQRSTUVWXYZ0123456789_''"

definition is_word_char :: "char \<Rightarrow> bool" where
  "is_word_char c = (c \<in> set word_chars)"

text \<open>
  One match of \<open>/\{(\w+)\}/\<close> at the head of the text: the captured field name and the
  text after the closing brace.
\<close>

definition match_placeholder :: "string \<Rightarrow> (string \<times> string) option" where
  "match_placeholder s =
     (case s of
        [] \<Rightarrow> None
      | c # r \<Rightarrow>
          (if c \<noteq> CHR ''{'' then None
           else (let w = takeWhile is_word_char r; rest = dropWhile is_word_char r
                 in if w = [] then None
                    else (case rest of
                            [] \<Rightarrow> None
                          | d # t \<Rightarrow> (if d = CHR ''}'' then Some (w, t) else None)))))"

text \<open>
  \<open>template.replace(/\{(\w+)\}/g, (_, field) => f(field))\<close>: every match, found from left
  to right, is replaced by what the callback returns; replaced text is not scanned again.
  A callback that throws ends the replacement.
\<close>

function replace_placeholders ::
  "(string \<Rightarrow> string completion) \<Rightarrow> string \<Rightarrow> string completion" where
  "replace_placeholders f [] = Returns []"
| "replace_placeholders f (c # cs) =
     (case match_placeholder (c # cs) of
        Some (field, rest) \<Rightarrow>
          (case f field of
             Throws \<Rightarrow> Throws
           | Returns s \<Rightarrow>
               (case replace_placeholders f rest of
                  Throws \<Rightarrow> Throws
                | Returns r \<Rightarrow> Returns (s @ r)))
      | None \<Rightarrow>
          (case replace_placeholders f cs of
             Throws \<Rightarrow> Throws
           | Returns r \<Rightarrow> Returns (c # r)))"
  by pat_completeness auto
termination
proof (relation "measure (\<lambda>(f, s). length s)")
  show "wf (measure (\<lambda>(f :: string \<Rightarrow> string completion, s :: string). length s))"
    by simp
next
  fix f :: "string \<Rightarrow> string completion" and c :: char and cs field rest s :: string
    and x2 :: "string \<times> string"
  assume a: "match_placeholder (c # cs) = Some x2" and b: "(field, rest) = x2"
  from a b have "dropWhile is_word_char cs = CHR ''}'' # rest"
    by (auto simp: match_placeholder_def Let_def split: if_splits list.splits)
  then have "length (CHR ''}'' # rest) \<le> length cs"
    by (metis length_dropWhile_le)
  then show "((f, rest), (f, c # cs)) \<in> measure (\<lambda>(f, s). length s)"
    by simp
next
  fix f :: "string \<Rightarrow> string completion" and c :: char and cs :: string
  show "((f, cs), (f, c # cs)) \<in> measure (\<lambda>(f, s). length s)"
    by simp
qed

section \<open>mapping.ts\<close>

text \<open>\<open>path.split(".")\<close>: the pieces between the separators; never the empty list.\<close>

fun split_on :: "char \<Rightarrow> string \<Rightarrow> string list" where
  "split_on d [] = [[]]"
| "split_on d (c # cs) =
     (if c = d then [] # split_on d cs
      else (case split_on d cs of
              p # ps \<Rightarrow> (c # p) # ps
            | [] \<Rightarrow> [[c]]))"

text \<open>The \<open>for (const part of parts)\<close> loop of \<open>resolve\<close>.\<close>

fun resolve_parts :: "json \<Rightarrow> string list \<Rightarrow> json" where
  "resolve_parts current [] = current"
| "resolve_parts current (part # parts) =
     (if nullish current then JUndefined
      else if \<not> typeof_object current then JUndefined
      else resolve_parts (get_prop current part) parts)"

definition resolve :: "json \<Rightarrow> string \<Rightarrow> json" where
  "resolve obj path =
     (if \<not> truthy obj \<or> \<not> typeof_object obj then JUndefined
      else resolve_parts obj (split_on CHR ''.'' path))"

text \<open>\<open>value ?? null\<close>.\<close>

definition or_null :: "json \<Rightarrow> json" where
  "or_null v = (if nullish v then JNull else v)"

text \<open>
  The object that \<open>applyMapping\<close> builds: its own properties and its prototype, which an
  assignment to \<open>__proto__\<close> can replace.
\<close>

record mapped_data =
  own_props :: obj
  proto :: json

text \<open>
  \<open>result[k] = v\<close> in strict code. An own property is overwritten. Otherwise the key is
  looked up on the prototype chain: a property that cannot be written there (the
  \<open>length\<close>, \<open>name\<close> and \<open>prototype\<close> of a built-in function, the \<open>caller\<close> and
  \<open>arguments\<close> of \<open>Function.prototype\<close>) makes the assignment throw; the accessor
  \<open>__proto__\<close> of \<open>Object.prototype\<close> replaces the prototype when the value is an object,
  a function or \<open>null\<close> and does nothing otherwise; in every other case the object gets a
  new own property.
\<close>

definition accessor_reached :: "json \<Rightarrow> bool" where
  "accessor_reached p =
     (case p of
        JNull \<Rightarrow> False
      | JObj kvs \<Rightarrow> map_of kvs ''__proto__'' = None
      | _ \<Rightarrow> True)"

definition not_writable :: "json \<Rightarrow> string \<Rightarrow> bool" where
  "not_writable p k =
     (case p of
        JFunction n a \<Rightarrow>
          k = ''length'' \<or> k = ''name'' \<or> k = ''caller'' \<or> k = ''arguments''
          \<or> (k = ''prototype'' \<and> (n = ''Object'' \<or> n = ''Array'' \<or> n = ''Function''))
      | _ \<Rightarrow> False)"

fun object_or_null :: "json \<Rightarrow> bool" where
  "object_or_null JNull = True"
| "object_or_null (JArr xs) = True"
| "object_or_null (JObj kvs) = True"
| "object_or_null (JFunction n a) = True"
| "object_or_null JObjectPrototype = True"
| "object_or_null JArrayPrototype = True"
| "object_or_null v = False"

definition set_prop :: "mapped_data \<Rightarrow> string \<Rightarrow> json \<Rightarrow> mapped_data completion" where
  "set_prop d k v =
     (if map_of (own_props d) k \<noteq> None
      then Returns (d\<lparr>own_props := AList.update k v (own_props d)\<rparr>)
      else if not_writable (proto d) k then Throws
      else if k = ''__proto__'' \<and> accessor_reached (proto d)
      then Returns (if object_or_null v then d\<lparr>proto := v\<rparr> else d)
      else Returns (d\<lparr>own_props := AList.update k v (own_props d)\<rparr>))"

text \<open>\<open>mappedData[k]\<close>: an own property, or what the prototype chain gives.\<close>

definition mapped_get :: "mapped_data \<Rightarrow> string \<Rightarrow> json completion" where
  "mapped_get d k =
     (case map_of (own_props d) k of
        Some v \<Rightarrow> Returns v
      | None \<Rightarrow> chain_get (proto d) (proto d) k)"

text \<open>
  \<open>applyMapping\<close>: the loop over \<open>Object.entries(mapping)\<close> assigns \<open>result[targetField]\<close>
  for one entry after the other, starting from the empty object.
\<close>

fun applyMapping_loop ::
  "json \<Rightarrow> (string \<times> string) list \<Rightarrow> mapped_data \<Rightarrow> mapped_data completion" where
  "applyMapping_loop item [] result = Returns result"
| "applyMapping_loop item ((targetField, sourcePath) # rest) result =
     (case set_prop result targetField (or_null (resolve item sourcePath)) of
        Throws \<Rightarrow> Throws
      | Returns result' \<Rightarrow> applyMapping_loop item rest result')"

definition applyMapping :: "json \<Rightarrow> (string \<times> string) list \<Rightarrow> mapped_data completion" where
  "applyMapping item mapping =
     applyMapping_loop item mapping \<lparr>own_props = [], proto = JObjectPrototype\<rparr>"

text \<open>\<open>extractId\<close>: \<open>null\<close> for a value that is \<open>null\<close> or \<open>undefined\<close>, its text otherwise.\<close>

definition extractId :: "json \<Rightarrow> string \<Rightarrow> string option completion" where
  "extractId item idField =
     (let v = resolve item idField
      in if nullish v then Returns None
         else (case js_String v of None \<Rightarrow> Throws | Some s \<Rightarrow> Returns (Some s)))"

definition buildExternalUrl :: "string \<Rightarrow> json \<Rightarrow> string completion" where
  "buildExternalUrl template item =
     replace_placeholders
       (\<lambda>field. let v = resolve item field
                in if \<not> nullish v
                   then (case js_String v of None \<Rightarrow> Throws | Some s \<Rightarrow> Returns s)
                   else Returns [])
       template"

section \<open>pagination.ts\<close>

datatype pagination_type = Cursor | Offset | SyncToken | LinkHeader | PageNumber | NoPagination

record pagination_config =
  ptype :: pagination_type
  requestParam :: "string option"
  responseField :: "string option"
  itemsField :: "string option"
  pageSize :: "int option"

record pagination_result =
  items :: "json list"
  nextCursor :: "string option"
  page_done :: bool

text \<open>\<open>config.pageSize || 100\<close>: an absent or zero page size falls back to 100.\<close>

definition page_size_or_default :: "pagination_config \<Rightarrow> int" where
  "page_size_or_default config =
     (case pageSize config of None \<Rightarrow> 100 | Some n \<Rightarrow> (if n = 0 then 100 else n))"

text \<open>
  The items of a response: \<open>resolve(responseObj, config.itemsField)\<close> when it is an
  array, the response itself when no items field is configured and it is an array.
  (\<open>Array.prototype\<close> passes \<open>Array.isArray\<close> too; it has no elements.)
\<close>

definition extract_items :: "json \<Rightarrow> pagination_config \<Rightarrow> json list" where
  "extract_items response config =
     (if truthy_str (itemsField config)
      then (case resolve response (the (itemsField config)) of
              JArr xs \<Rightarrow> xs
            | _ \<Rightarrow> [])
      else (case response of
              JArr xs \<Rightarrow> xs
            | _ \<Rightarrow> []))"

text \<open>
  \<open>cursor ? String(cursor) : null\<close> after \<open>resolve(responseObj, config.responseField)\<close>;
  a \<open>String\<close> that throws gives the message of its \<open>TypeError\<close>.
\<close>

definition response_cursor :: "json \<Rightarrow> pagination_config \<Rightarrow> string + string option" where
  "response_cursor response config =
     (if truthy_str (responseField config)
      then (let cursor = resolve response (the (responseField config))
            in if truthy cursor
               then (case js_String cursor of
                       None \<Rightarrow> Inl cannot_convert
                     | Some s \<Rightarrow> Inr (Some s))
               else Inr None)
      else Inr None)"

text \<open>
  The \<open>Link\<close> header is searched with \<open>/<([^>]+)>;\s*rel="next"/\<close>: the first position
  where a \<open><\<close>, at least one character other than \<open>>\<close>, then \<open>>;\<close>, optional white
  space and \<open>rel="next"\<close> follow one another. The result is the text between the brackets.
  White space is the ASCII white space.
\<close>

definition is_space :: "char \<Rightarrow> bool" where
  "is_space c = (c \<in> {CHR '' '', CHR 0x09, CHR 0x0A, CHR 0x0B, CHR 0x0C, CHR 0x0D})"

fun starts_with :: "string \<Rightarrow> string \<Rightarrow> bool" where
  "starts_with [] s = True"
| "starts_with (p # ps) [] = False"
| "starts_with (p # ps) (c # cs) = (p = c \<and> starts_with ps cs)"

definition rel_next :: string where
  \<open>rel_next = ''rel="next"''\<close>

definition match_next_at :: "string \<Rightarrow> string option" where
  "match_next_at s =
     (case s of
        [] \<Rightarrow> None
      | c # r \<Rightarrow>
          (if c \<noteq> CHR ''<'' then None
           else (let url = takeWhile (\<lambda>x. x \<noteq> CHR ''>'') r;
                     rest = dropWhile (\<lambda>x. x \<noteq> CHR ''>'') r
                 in if url = [] then None
                    else if starts_with ''>;'' rest
                            \<and> starts_with rel_next (dropWhile is_space (drop 2 rest))
                    then Some url else None)))"

fun match_next :: "string \<Rightarrow> string option" where
  "match_next [] = None"
| "match_next (c # cs) =
     (case match_next_at (c # cs) of
        Some url \<Rightarrow> Some url
      | None \<Rightarrow> match_next cs)"

text \<open>\<open>headers?.["link"] || headers?.["Link"] || ""\<close>.\<close>

definition link_header :: "(string \<times> string) list option \<Rightarrow> string" where
  "link_header headers =
     (case headers of
        None \<Rightarrow> []
      | Some hs \<Rightarrow>
          (if truthy_str (map_of hs ''link'') then the (map_of hs ''link'')
           else if truthy_str (map_of hs ''Link'') then the (map_of hs ''Link'')
           else []))"

text \<open>\<open>extractPage\<close> returns a page (\<open>Inr\<close>) or throws (\<open>Inl\<close>, the message).\<close>

definition extractPage ::
  "json \<Rightarrow> pagination_config \<Rightarrow> (string \<times> string) list option
     \<Rightarrow> string + pagination_result" where
  "extractPage response config headers =
     (if \<not> truthy response \<or> \<not> typeof_object response
      then Inr \<lparr>items = [], nextCursor = None, page_done = True\<rparr>
      else
        (let its = extract_items response config in
         case ptype config of
           Cursor \<Rightarrow>
             (case response_cursor response config of
                Inl msg \<Rightarrow> Inl msg
              | Inr nc \<Rightarrow> Inr \<lparr>items = its, nextCursor = nc, page_done = \<not> truthy_str nc\<rparr>)
         | Offset \<Rightarrow>
             (if int (length its) < page_size_or_default config
              then Inr \<lparr>items = its, nextCursor = None, page_done = True\<rparr>
              else Inr \<lparr>items = its, nextCursor = Some ''continue'', page_done = False\<rparr>)
         | SyncToken \<Rightarrow>
             (case response_cursor response config of
                Inl msg \<Rightarrow> Inl msg
              | Inr nc \<Rightarrow> Inr \<lparr>items = its, nextCursor = nc,
                                page_done = (length its = 0 \<and> \<not> truthy_str nc)\<rparr>)
         | LinkHeader \<Rightarrow>
             (let nc = match_next (link_header headers)
              in Inr \<lparr>items = its, nextCursor = nc, page_done = \<not> truthy_str nc\<rparr>)
         | PageNumber \<Rightarrow>
             (if int (length its) < page_size_or_default config
              then Inr \<lparr>items = its, nextCursor = None, page_done = True\<rparr>
              else Inr \<lparr>items = its, nextCursor = Some ''continue'', page_done = False\<rparr>)
         | NoPagination \<Rightarrow>
             Inr \<lparr>items = its, nextCursor = None, page_done = True\<rparr>))"

text \<open>
  \<open>applyCursor\<close>. \<open>{ ...queryParams }\<close> copies the own properties in order, so the copy is
  the same list; \<open>params[k] = v\<close> overwrites the property in place or appends it.
\<close>

definition applyCursor ::
  "obj \<Rightarrow> pagination_config \<Rightarrow> string option \<Rightarrow> int \<Rightarrow> obj" where
  "applyCursor queryParams config cursor currentOffset =
     (if \<not> truthy_str cursor \<and> ptype config \<noteq> Offset \<and> ptype config \<noteq> PageNumber
      then queryParams
      else
        (let params = queryParams in
         case ptype config of
           Cursor \<Rightarrow>
             (if truthy_str cursor \<and> truthy_str (requestParam config)
              then assign (the (requestParam config)) (JStr (the cursor)) params
              else params)
         | Offset \<Rightarrow>
             (if truthy_str (requestParam config)
              then assign (the (requestParam config)) (JNum currentOffset) params
              else params)
         | SyncToken \<Rightarrow>
             (if truthy_str cursor \<and> truthy_str (requestParam config)
              then assign (the (requestParam config)) (JStr (the cursor)) params
              else params)
         | PageNumber \<Rightarrow>
             (if truthy_str (requestParam config)
              then (let page = currentOffset div page_size_or_default config + 1
                    in assign (the (requestParam config)) (JNum page) params)
              else params)
         | LinkHeader \<Rightarrow> params
         | NoPagination \<Rightarrow> params))"

text \<open>
  \<open>s.replace(pattern, replacement)\<close> with a string pattern: the first occurrence only;
  in the replacement \<open>$$\<close> is a dollar sign, \<open>$&\<close> the matched text, \<open>$`\<close> the text
  before the match and \<open>$'\<close> the text after it.
\<close>

fun find_sub :: "string \<Rightarrow> string \<Rightarrow> (string \<times> string) option" where
  "find_sub pat [] = (if pat = [] then Some ([], []) else None)"
| "find_sub pat (c # cs) =
     (if starts_with pat (c # cs) then Some ([], drop (length pat) (c # cs))
      else (case find_sub pat cs of
              Some (pre, post) \<Rightarrow> Some (c # pre, post)
            | None \<Rightarrow> None))"

fun expand_dollar :: "string \<Rightarrow> string \<Rightarrow> string \<Rightarrow> string \<Rightarrow> string" where
  "expand_dollar pre matched post [] = []"
| "expand_dollar pre matched post [c] = [c]"
| "expand_dollar pre matched post (c # d # r) =
     (if c = CHR ''$'' \<and> d = CHR ''$'' then CHR ''$'' # expand_dollar pre matched post r
      else if c = CHR ''$'' \<and> d = CHR ''&'' then matched @ expand_dollar pre matched post r
      else if c = CHR ''$'' \<and> d = CHR 0x60 then pre @ expand_dollar pre matched post r
      else if c = CHR ''$'' \<and> d = CHR 0x27 then post @ expand_dollar pre matched post r
      else c # expand_dollar pre matched post (d # r))"

definition replace_first :: "string \<Rightarrow> string \<Rightarrow> string \<Rightarrow> string" where
  "replace_first pat replacement s =
     (case find_sub pat s of
        None \<Rightarrow> s
      | Some (pre, post) \<Rightarrow> pre @ expand_dollar pre pat post replacement @ post)"

fun includes_str :: "string \<Rightarrow> string \<Rightarrow> bool" where
  "includes_str pat [] = (pat = [])"
| "includes_str pat (c # cs) = (starts_with pat (c # cs) \<or> includes_str pat cs)"

definition endsWith :: "string \<Rightarrow> string \<Rightarrow> bool" where
  "endsWith pat s = starts_with (rev pat) (rev s)"

section \<open>types.ts\<close>

record request_template =
  req_method :: "string option"
  req_path :: "string option"
  req_queryParams :: "obj option"
  req_body :: "obj option"
  req_headers :: "(string \<times> string) list option"

record detail_config =
  detail_actionId :: string
  detail_path :: string
  detail_pathVar :: string
  detail_idField :: string
  detail_queryParams :: "obj option"

record record_config =
  record_type :: string
  record_mapping :: "(string \<times> string) list"
  record_tags :: "string list option"
  naturalKeys :: "string list option"

record external_ref_config =
  ref_system :: string
  ref_idField :: string
  urlTemplate :: "string option"

datatype incremental_type = QueryFilter | SyncTokenFilter | SortFilter

record incremental_config =
  inc_type :: incremental_type
  inc_param :: "string option"
  inc_template :: "string option"
  inc_tokenField :: "string option"

record sync_mapping =
  mapping_name :: string
  platform :: string
  connectionKey :: string
  actionId :: string
  request :: request_template
  pagination :: pagination_config
  detail :: "detail_config option"
  record_config :: record_config
  externalRef :: external_ref_config
  incremental :: "incremental_config option"

datatype sync_status = Idle | Running | Completed | Error

record sync_state =
  lastSyncAt :: "string option"
  lastCursor :: "string option"
  syncToken :: "string option"
  totalSynced :: int
  lastRunRecords :: int
  status :: sync_status
  lastError :: "string option"

datatype result_status = ResultCompleted | ResultError

record sync_result =
  result_name :: string
  result_new :: int
  result_updated :: int
  result_skipped :: int
  result_errors :: int
  result_duration :: string
  result_status :: result_status
  result_error :: "string option"

section \<open>The collaborators of the engine\<close>

text \<open>
  The upstream request capability (\<open>pica-client.ts\<close>) and the destination store
  (\<open>SyncOutput\<close>) are parameters of the engine. Each call reads and changes a world
  \<open>'w\<close> and either returns (\<open>Inr\<close>) or throws an \<open>Error\<close> with a message (\<open>Inl\<close>).
  The clock gives \<open>new Date().toISOString()\<close> and the elapsed seconds as printed by
  \<open>toFixed(1)\<close>.
\<close>

record pica_request_options =
  opt_secretKey :: string
  opt_connectionKey :: string
  opt_actionId :: string
  opt_baseUrl :: string
  opt_method :: "string option"
  opt_path :: "string option"
  opt_queryParams :: "obj option"
  opt_body :: "obj option"
  opt_headers :: "(string \<times> string) list option"

record pica_response =
  response_data :: json
  response_headers :: "(string \<times> string) list"
  response_status :: int

datatype upsert_action = Inserted | Updated

record upsert_record =
  upsert_type :: string
  upsert_data :: mapped_data
  upsert_tags :: "string list option"
  upsert_keys :: "string list"

record external_reference =
  er_system :: string
  er_externalId :: string
  er_url :: "string option"

record 'w collaborators =
  picaRequest :: "pica_request_options \<Rightarrow> 'w \<Rightarrow> (string + pica_response) \<times> 'w"
  picaRequestUrl :: "string \<Rightarrow> string \<Rightarrow> string \<Rightarrow> string \<Rightarrow> 'w \<Rightarrow> (string + pica_response) \<times> 'w"
  upsert :: "upsert_record \<Rightarrow> 'w \<Rightarrow> (string + string \<times> upsert_action) \<times> 'w"
  addRef :: "string \<Rightarrow> external_reference \<Rightarrow> 'w \<Rightarrow> (string + unit) \<times> 'w"
  toISOString :: "'w \<Rightarrow> string"
  elapsed :: "'w \<Rightarrow> string"

record engine_options =
  baseDir :: string
  secretKey :: string
  picaBaseUrl :: "string option"
  full_opt :: "bool option"
  verbose_opt :: "bool option"

text \<open>A call of the upstream: a composed request, or a request to a full URL.\<close>

datatype upstream_call =
    PicaRequest pica_request_options
  | PicaRequestUrl string string string string

definition perform ::
  "'w collaborators \<Rightarrow> upstream_call \<Rightarrow> 'w \<Rightarrow> (string + pica_response) \<times> 'w" where
  "perform env call w =
     (case call of
        PicaRequest opts \<Rightarrow> picaRequest env opts w
      | PicaRequestUrl fullUrl sk ck aid \<Rightarrow> picaRequestUrl env fullUrl sk ck aid w)"

section \<open>engine.ts\<close>

record counters =
  newCount :: int
  updatedCount :: int
  skippedCount :: int
  errorCount :: int

definition applyIncrementalFilter :: "obj \<Rightarrow> incremental_config \<Rightarrow> sync_state \<Rightarrow> obj" where
  "applyIncrementalFilter queryParams inc state =
     (let params = queryParams in
      case inc_type inc of
        QueryFilter \<Rightarrow>
          (if truthy_str (inc_param inc) \<and> truthy_str (inc_template inc)
                \<and> truthy_str (lastSyncAt state)
           then (let syncAt = the (lastSyncAt state);
                     lastSyncDate = (case split_on CHR ''T'' syncAt of d # ds \<Rightarrow> d | [] \<Rightarrow> []);
                     v = replace_first ''{lastSyncAt}'' syncAt
                           (replace_first ''{lastSyncDate}'' lastSyncDate (the (inc_template inc)))
                 in assign (the (inc_param inc)) (JStr v) params)
           else params)
      | SyncTokenFilter \<Rightarrow>
          (if truthy_str (inc_param inc) \<and> truthy_str (syncToken state)
           then assign (the (inc_param inc)) (JStr (the (syncToken state))) params
           else params)
      | SortFilter \<Rightarrow>
          (if truthy_str (inc_param inc) \<and> truthy_str (lastSyncAt state)
           then assign (the (inc_param inc)) (JStr (the (lastSyncAt state))) params
           else params))"

text \<open>
  The start of a run: \<open>isFirstRun = !state.lastSyncAt\<close>, and the cursor the loop starts
  from (\<open>if (!full && !isFirstRun && state.lastCursor) cursor = state.lastCursor\<close>).
\<close>

definition isFirstRun :: "sync_state \<Rightarrow> bool" where
  "isFirstRun state = (\<not> truthy_str (lastSyncAt state))"

definition initial_cursor :: "bool \<Rightarrow> bool \<Rightarrow> sync_state \<Rightarrow> string option" where
  "initial_cursor full firstRun state =
     (if \<not> full \<and> \<not> firstRun \<and> truthy_str (lastCursor state)
      then lastCursor state else None)"

text \<open>
  The query parameters of one page request: the static ones of the mapping, the
  incremental filter, the pagination cursor.
\<close>

definition page_queryParams ::
  "sync_mapping \<Rightarrow> bool \<Rightarrow> bool \<Rightarrow> sync_state \<Rightarrow> string option \<Rightarrow> int \<Rightarrow> obj" where
  "page_queryParams mapping full firstRun state cursor offset =
     (let queryParams = (case req_queryParams (request mapping) of Some q \<Rightarrow> q | None \<Rightarrow> []);
          queryParams =
            (if \<not> full \<and> \<not> firstRun \<and> incremental mapping \<noteq> None
                  \<and> truthy_str (lastSyncAt state)
             then applyIncrementalFilter queryParams (the (incremental mapping)) state
             else queryParams)
      in applyCursor queryParams (pagination mapping) cursor offset)"

text \<open>
  For a POST request with a body, the pagination parameter goes from the query parameters
  to the body: \<open>queryParams[requestParam]\<close> is read (an own property or an inherited
  one), assigned in the body and deleted from the query parameters. The result is the
  pair of the query parameters and the body of the request.
\<close>

definition move_pagination_param :: "sync_mapping \<Rightarrow> obj \<Rightarrow> obj \<times> obj option" where
  "move_pagination_param mapping queryParams =
     (let body = req_body (request mapping)
      in if body \<noteq> None \<and> req_method (request mapping) = Some ''POST''
              \<and> truthy_str (requestParam (pagination mapping))
         then (let rp = the (requestParam (pagination mapping));
                   paginationValue = get_prop (JObj queryParams) rp
               in if paginationValue \<noteq> JUndefined
                  then (AList.delete rp queryParams, Some (assign rp paginationValue (the body)))
                  else (queryParams, body))
         else (queryParams, body))"

definition page_request ::
  "sync_mapping \<Rightarrow> bool \<Rightarrow> bool \<Rightarrow> sync_state \<Rightarrow> string option \<Rightarrow> int \<Rightarrow> obj \<times> obj option" where
  "page_request mapping full firstRun state cursor offset =
     move_pagination_param mapping
       (page_queryParams mapping full firstRun state cursor offset)"

definition base_url :: "engine_options \<Rightarrow> string" where
  "base_url options =
     (if truthy_str (picaBaseUrl options) then the (picaBaseUrl options)
      else ''https://api.picaos.com'')"

text \<open>
  The call for a page: the cursor as a full URL for a \<open>link-header\<close> continuation, the
  composed request otherwise.
\<close>

definition page_call ::
  "sync_mapping \<Rightarrow> engine_options \<Rightarrow> string option \<Rightarrow> obj \<times> obj option \<Rightarrow> upstream_call" where
  "page_call mapping options cursor req =
     (if ptype (pagination mapping) = LinkHeader \<and> truthy_str cursor
      then PicaRequestUrl (the cursor) (secretKey options) (connectionKey mapping)
             (actionId mapping)
      else PicaRequest
             \<lparr>opt_secretKey = secretKey options,
              opt_connectionKey = connectionKey mapping,
              opt_actionId = actionId mapping,
              opt_baseUrl = base_url options,
              opt_method = req_method (request mapping),
              opt_path = req_path (request mapping),
              opt_queryParams = Some (fst req),
              opt_body = snd req,
              opt_headers = req_headers (request mapping)\<rparr>)"

definition fetch_page ::
  "'w collaborators \<Rightarrow> sync_mapping \<Rightarrow> engine_options \<Rightarrow> string option \<Rightarrow> obj \<times> obj option
     \<Rightarrow> 'w \<Rightarrow> (string + pica_response) \<times> 'w" where
  "fetch_page env mapping options cursor req w =
     perform env (page_call mapping options cursor req) w"

text \<open>
  The detail fetch of one item: the working item is the detail response when the request
  succeeds with an object, the list item otherwise (the \<open>catch\<close> swallows a failure of
  \<open>extractId\<close> or of the request).
\<close>

definition detail_call ::
  "sync_mapping \<Rightarrow> engine_options \<Rightarrow> detail_config \<Rightarrow> string \<Rightarrow> upstream_call" where
  "detail_call mapping options d detailId =
     PicaRequest
       \<lparr>opt_secretKey = secretKey options,
        opt_connectionKey = connectionKey mapping,
        opt_actionId = detail_actionId d,
        opt_baseUrl = base_url options,
        opt_method = Some ''GET'',
        opt_path = Some (replace_first (''{'' @ detail_pathVar d @ ''}'') detailId (detail_path d)),
        opt_queryParams = detail_queryParams d,
        opt_body = None,
        opt_headers = None\<rparr>"

definition fetch_detail ::
  "'w collaborators \<Rightarrow> sync_mapping \<Rightarrow> engine_options \<Rightarrow> json \<Rightarrow> 'w \<Rightarrow> json \<times> 'w" where
  "fetch_detail env mapping options item w =
     (case detail mapping of
        None \<Rightarrow> (item, w)
      | Some d \<Rightarrow>
          (case extractId item (detail_idField d) of
             Throws \<Rightarrow> (item, w)
           | Returns detailId \<Rightarrow>
               (if truthy_str detailId
                then (let (r, w') = perform env (detail_call mapping options d (the detailId)) w
                      in case r of
                           Inl e \<Rightarrow> (item, w')
                         | Inr detailResponse \<Rightarrow>
                             (if truthy (response_data detailResponse)
                                   \<and> typeof_object (response_data detailResponse)
                              then (response_data detailResponse, w')
                              else (item, w')))
                else (item, w))))"

text \<open>
  The natural keys: each template resolved from the mapped data, then kept or dropped.
  Reading a field or printing its value can throw.
\<close>

definition field_text :: "mapped_data \<Rightarrow> string \<Rightarrow> string completion" where
  "field_text mappedData field =
     (case mapped_get mappedData field of
        Throws \<Rightarrow> Throws
      | Returns val \<Rightarrow>
          (if \<not> nullish val
           then (case js_String val of None \<Rightarrow> Throws | Some s \<Rightarrow> Returns s)
           else Returns []))"

definition resolve_template :: "mapped_data \<Rightarrow> string \<Rightarrow> string completion" where
  "resolve_template mappedData template =
     replace_placeholders (field_text mappedData) template"

definition keep_key :: "string \<Rightarrow> string option" where
  "keep_key resolved =
     (if resolved \<noteq> [] \<and> \<not> includes_str '':'' resolved then Some resolved
      else if resolved \<noteq> [] \<and> \<not> endsWith '':'' resolved \<and> \<not> includes_str ''::'' resolved
      then Some resolved
      else None)"

definition natural_key :: "mapped_data \<Rightarrow> string \<Rightarrow> string option completion" where
  "natural_key mappedData template =
     (case resolve_template mappedData template of
        Throws \<Rightarrow> Throws
      | Returns resolved \<Rightarrow> Returns (keep_key resolved))"

fun natural_keys :: "mapped_data \<Rightarrow> string list \<Rightarrow> string list completion" where
  "natural_keys mappedData [] = Returns []"
| "natural_keys mappedData (template # templates) =
     (case natural_key mappedData template of
        Throws \<Rightarrow> Throws
      | Returns k \<Rightarrow>
          (case natural_keys mappedData templates of
             Throws \<Rightarrow> Throws
           | Returns ks \<Rightarrow> Returns ((case k of Some key \<Rightarrow> [key] | None \<Rightarrow> []) @ ks)))"

definition build_keys :: "sync_mapping \<Rightarrow> string \<Rightarrow> mapped_data \<Rightarrow> string list completion" where
  "build_keys mapping externalId mappedData =
     (case naturalKeys (record_config mapping) of
        None \<Rightarrow> Returns [ref_system (externalRef mapping) @ '':'' @ externalId]
      | Some templates \<Rightarrow>
          (case natural_keys mappedData templates of
             Throws \<Rightarrow> Throws
           | Returns ks \<Rightarrow>
               Returns ((ref_system (externalRef mapping) @ '':'' @ externalId) # ks)))"

text \<open>
  The body of the \<open>for (const item of page.items)\<close> loop, with its \<open>try\<close>/\<open>catch\<close>:
  whatever throws between the braces counts one error and ends the item.
\<close>

definition item_failed :: "counters \<Rightarrow> counters" where
  "item_failed c = c\<lparr>errorCount := errorCount c + 1\<rparr>"

definition process_item ::
  "'w collaborators \<Rightarrow> sync_mapping \<Rightarrow> engine_options \<Rightarrow> counters \<times> 'w \<Rightarrow> json
     \<Rightarrow> counters \<times> 'w" where
  "process_item env mapping options cw item =
     (let c = fst cw; w = snd cw in
      case extractId item (ref_idField (externalRef mapping)) of
        Throws \<Rightarrow> (item_failed c, w)
      | Returns externalId \<Rightarrow>
          (if \<not> truthy_str externalId then (item_failed c, w)
           else
             (let (itemData, w1) = fetch_detail env mapping options item w in
              case applyMapping itemData (record_mapping (record_config mapping)) of
                Throws \<Rightarrow> (item_failed c, w1)
              | Returns mappedData \<Rightarrow>
                  (case build_keys mapping (the externalId) mappedData of
                     Throws \<Rightarrow> (item_failed c, w1)
                   | Returns keys \<Rightarrow>
                       (let (r, w2) = upsert env
                              \<lparr>upsert_type = record_type (record_config mapping),
                               upsert_data = mappedData,
                               upsert_tags = record_tags (record_config mapping),
                               upsert_keys = keys\<rparr> w1
                        in case r of
                             Inl e \<Rightarrow> (item_failed c, w2)
                           | Inr (recordId, action) \<Rightarrow>
                               (case (if truthy_str (urlTemplate (externalRef mapping))
                                      then (case buildExternalUrl
                                                   (the (urlTemplate (externalRef mapping))) item of
                                              Throws \<Rightarrow> Throws
                                            | Returns u \<Rightarrow> Returns (Some u))
                                      else Returns None) of
                                  Throws \<Rightarrow> (item_failed c, w2)
                                | Returns externalUrl \<Rightarrow>
                                    (let (r2, w3) = addRef env recordId
                                           \<lparr>er_system = ref_system (externalRef mapping),
                                            er_externalId = the externalId,
                                            er_url = externalUrl\<rparr> w2
                                     in case r2 of
                                          Inl e \<Rightarrow> (item_failed c, w3)
                                        | Inr u \<Rightarrow>
                                            (if action = Updated
                                             then (c\<lparr>updatedCount := updatedCount c + 1\<rparr>, w3)
                                             else (c\<lparr>newCount := newCount c + 1\<rparr>, w3)))))))))"

text \<open>
  The \<open>while (!done)\<close> loop. It ends normally with the counters, the cursor and the state
  it has reached, or a page request or \<open>extractPage\<close> throws and it stops with the
  message and the counters and the state of that moment. A run may go on for ever (a
  server that always returns a token): the loop takes fuel, one unit for each page, and
  \<open>None\<close> is a run that has not ended within it.
\<close>

datatype 'w loop_end =
    Finished counters "string option" sync_state 'w
  | Aborted string counters sync_state 'w

fun pull_loop ::
  "nat \<Rightarrow> 'w collaborators \<Rightarrow> sync_mapping \<Rightarrow> engine_options \<Rightarrow> bool \<Rightarrow> bool
     \<Rightarrow> counters \<Rightarrow> string option \<Rightarrow> int \<Rightarrow> sync_state \<Rightarrow> 'w \<Rightarrow> 'w loop_end option" where
  "pull_loop 0 env mapping options full firstRun c cursor offset state w = None"
| "pull_loop (Suc n) env mapping options full firstRun c cursor offset state w =
     (let req = page_request mapping full firstRun state cursor offset;
          (r, w1) = fetch_page env mapping options cursor req w
      in case r of
           Inl msg \<Rightarrow> Some (Aborted msg c state w1)
         | Inr response \<Rightarrow>
             (case extractPage (response_data response) (pagination mapping)
                     (Some (response_headers response)) of
                Inl msg \<Rightarrow> Some (Aborted msg c state w1)
              | Inr page \<Rightarrow>
                  (let (c', w2) = foldl (process_item env mapping options) (c, w1) (items page);
                       cursor' = nextCursor page;
                       offset' = offset + int (length (items page));
                       state' = state\<lparr>lastCursor := cursor'\<rparr>
                   in if page_done page then Some (Finished c' cursor' state' w2)
                      else pull_loop n env mapping options full firstRun c' cursor' offset'
                             state' w2)))"

text \<open>
  The \<open>try\<close>/\<open>catch\<close> statement of \<open>pull\<close>, from the values its variables have when it is
  entered: the loop, then the end of the run on the success path or in the handler. The
  result is the \<open>SyncResult\<close>, the state as last saved, and the world.
\<close>

definition captures_sync_token :: "sync_mapping \<Rightarrow> bool" where
  "captures_sync_token mapping =
     (case incremental mapping of
        None \<Rightarrow> False
      | Some inc \<Rightarrow> inc_type inc = SyncTokenFilter \<and> truthy_str (inc_tokenField inc))"

definition pull_try ::
  "nat \<Rightarrow> 'w collaborators \<Rightarrow> sync_mapping \<Rightarrow> engine_options \<Rightarrow> bool \<Rightarrow> bool
     \<Rightarrow> counters \<Rightarrow> string option \<Rightarrow> int \<Rightarrow> sync_state \<Rightarrow> 'w
     \<Rightarrow> (sync_result \<times> sync_state \<times> 'w) option" where
  "pull_try fuel env mapping options full firstRun c cursor offset state w =
     (case pull_loop fuel env mapping options full firstRun c cursor offset state w of
        None \<Rightarrow> None
      | Some (Finished c' cursor' state' w') \<Rightarrow>
          (let state1 = (if captures_sync_token mapping then state'\<lparr>syncToken := cursor'\<rparr>
                         else state');
               state2 = state1
                 \<lparr>lastSyncAt := Some (toISOString env w'),
                  lastCursor := None,
                  totalSynced := totalSynced state1 + newCount c',
                  lastRunRecords := newCount c',
                  status := Completed,
                  lastError := None\<rparr>
           in Some (\<lparr>result_name = mapping_name mapping,
                      result_new = newCount c',
                      result_updated = updatedCount c',
                      result_skipped = skippedCount c',
                      result_errors = errorCount c',
                      result_duration = elapsed env w' @ ''s'',
                      result_status = ResultCompleted,
                      result_error = None\<rparr>, state2, w'))
      | Some (Aborted errorMsg c' state' w') \<Rightarrow>
          (let state1 = state'
                 \<lparr>status := Error,
                  lastError := Some errorMsg,
                  lastRunRecords := newCount c'\<rparr>
           in Some (\<lparr>result_name = mapping_name mapping,
                      result_new = newCount c',
                      result_updated = updatedCount c',
                      result_skipped = skippedCount c',
                      result_errors = errorCount c' + 1,
                      result_duration = elapsed env w' @ ''s'',
                      result_status = ResultError,
                      result_error = Some errorMsg\<rparr>, state1, w')))"

text \<open>
  \<open>pull\<close>, from the state that \<open>loadState\<close> returns. \<open>saveState\<close> writes the state object
  whole each time it has been changed; the state returned is what the last write stored.
\<close>

definition pull ::
  "nat \<Rightarrow> 'w collaborators \<Rightarrow> sync_mapping \<Rightarrow> engine_options \<Rightarrow> sync_state \<Rightarrow> 'w
     \<Rightarrow> (sync_result \<times> sync_state \<times> 'w) option" where
  "pull fuel env mapping options loaded w =
     (let full = (case full_opt options of Some b \<Rightarrow> b | None \<Rightarrow> False);
          firstRun = isFirstRun loaded;
          state = loaded\<lparr>status := Running, lastError := None\<rparr>;
          c = \<lparr>newCount = 0, updatedCount = 0, skippedCount = 0, errorCount = 0\<rparr>;
          offset = 0;
          cursor = initial_cursor full firstRun state
      in pull_try fuel env mapping options full firstRun c cursor offset state w)"

section \<open>Observations\<close>







text \<open>The counters, the state and the world the loop holds when it stops.\<close>

fun end_counters :: "'w loop_end \<Rightarrow> counters" where
  "end_counters (Finished c cursor state w) = c"
| "end_counters (Aborted msg c state w) = c"

fun end_state :: "'w loop_end \<Rightarrow> sync_state" where
  "end_state (Finished c cursor state w) = state"
| "end_state (Aborted msg c state w) = state"

fun end_world :: "'w loop_end \<Rightarrow> 'w" where
  "end_world (Finished c cursor state w) = w"
| "end_world (Aborted msg c state w) = w"

text \<open>
  The same collaborators with a log: every call of the upstream is appended to the log,
  nothing else changes.
\<close>

definition logged :: "'w collaborators \<Rightarrow> ('w \<times> upstream_call list) collaborators" where
  "logged env =
     \<lparr>picaRequest = (\<lambda>opts wl.
        (fst (picaRequest env opts (fst wl)),
         (snd (picaRequest env opts (fst wl)), snd wl @ [PicaRequest opts]))),
      picaRequestUrl = (\<lambda>fullUrl sk ck aid wl.
        (fst (picaRequestUrl env fullUrl sk ck aid (fst wl)),
         (snd (picaRequestUrl env fullUrl sk ck aid (fst wl)),
          snd wl @ [PicaRequestUrl fullUrl sk ck aid]))),
      upsert = (\<lambda>r wl. (fst (upsert env r (fst wl)), (snd (upsert env r (fst wl)), snd wl))),
      addRef = (\<lambda>recordId ref wl.
        (fst (addRef env recordId ref (fst wl)), (snd (addRef env recordId ref (fst wl)), snd wl))),
      toISOString = (\<lambda>wl. toISOString env (fst wl)),
      elapsed = (\<lambda>wl. elapsed env (fst wl))\<rparr>"

text \<open>The static query parameters of a mapping (\<open>mapping.request.queryParams || {}\<close>).\<close>

definition static_params :: "sync_mapping \<Rightarrow> obj" where
  "static_params mapping = (case req_queryParams (request mapping) of Some q \<Rightarrow> q | None \<Rightarrow> [])"

text \<open>
  The calls a run can make: a detail request for some item, or the request of some page,
  built by \<open>page_request\<close> from the state, the cursor and the offset of that iteration.
\<close>

abbreviation is_detail_call :: "sync_mapping \<Rightarrow> engine_options \<Rightarrow> upstream_call \<Rightarrow> bool" where
  "is_detail_call mapping options call \<equiv>
     (\<exists>d detailId. detail mapping = Some d \<and> call = detail_call mapping options d detailId)"

abbreviation is_page_call ::
  "sync_mapping \<Rightarrow> engine_options \<Rightarrow> bool \<Rightarrow> bool \<Rightarrow> upstream_call \<Rightarrow> bool" where
  "is_page_call mapping options full firstRun call \<equiv>
     (\<exists>state cursor offset.
        call = page_call mapping options cursor
                 (page_request mapping full firstRun state cursor offset))"

text \<open>The end of a logged loop without its log.\<close>

fun unlog :: "('w \<times> upstream_call list) loop_end \<Rightarrow> 'w loop_end" where
  "unlog (Finished c cursor state wl) = Finished c cursor state (fst wl)"
| "unlog (Aborted msg c state wl) = Aborted msg c state (fst wl)"

text \<open>
  The query parameters and the body that a call hands to the upstream; a request by URL
  has neither.
\<close>

fun sent_queryParams :: "upstream_call \<Rightarrow> obj option" where
  "sent_queryParams (PicaRequest opts) = opt_queryParams opts"
| "sent_queryParams (PicaRequestUrl fullUrl sk ck aid) = None"

fun sent_body :: "upstream_call \<Rightarrow> obj option" where
  "sent_body (PicaRequest opts) = opt_body opts"
| "sent_body (PicaRequestUrl fullUrl sk ck aid) = None"
section \<open>A scripted upstream and store\<close>

text \<open>
  Collaborators for running the engine on concrete inputs: the upstream answers each
  request with the next scripted reply and logs the options of the request; the store
  inserts every record under one id and logs it.
\<close>

record script_world =
  replies :: "(string + pica_response) list"
  requests :: "pica_request_options list"
  stored :: "upsert_record list"

definition next_reply :: "script_world \<Rightarrow> (string + pica_response) \<times> script_world" where
  "next_reply w =
     (case replies w of
        [] \<Rightarrow> (Inl ''no reply scripted'', w)
      | r # rs \<Rightarrow> (r, w\<lparr>replies := rs\<rparr>))"

definition scripted :: "script_world collaborators" where
  "scripted =
     \<lparr>picaRequest = (\<lambda>opts w. next_reply (w\<lparr>requests := requests w @ [opts]\<rparr>)),
      picaRequestUrl = (\<lambda>url sk ck aid w. next_reply w),
      upsert = (\<lambda>r w. (Inr (''rec-1'', Inserted), w\<lparr>stored := stored w @ [r]\<rparr>)),
      addRef = (\<lambda>recordId ref w. (Inr (), w)),
      toISOString = (\<lambda>w. ''2026-01-01T00:00:00.000Z''),
      elapsed = (\<lambda>w. ''0.0'')\<rparr>"

definition ok_reply :: "json \<Rightarrow> string + pica_response" where
  "ok_reply body = Inr \<lparr>response_data = body, response_headers = [], response_status = 200\<rparr>"

definition contacts_mapping :: sync_mapping where
  "contacts_mapping =
     \<lparr>mapping_name = ''contacts'', platform = ''attio'', connectionKey = ''conn-1'',
      actionId = ''act-1'',
      request = \<lparr>req_method = Some ''GET'', req_path = Some ''/people'',
                 req_queryParams = Some [(''limit'', JNum 2)], req_body = None,
                 req_headers = None\<rparr>,
      pagination = \<lparr>ptype = Cursor, requestParam = Some ''pageToken'',
                    responseField = Some ''nextPageToken'', itemsField = Some ''items'',
                    pageSize = None\<rparr>,
      detail = None,
      record_config = \<lparr>record_type = ''person'', record_mapping = [(''email'', ''email'')],
                       record_tags = None, naturalKeys = Some [''person:{email}'']\<rparr>,
      externalRef = \<lparr>ref_system = ''attio'', ref_idField = ''id'', urlTemplate = None\<rparr>,
      incremental = None\<rparr>"

definition run_options :: "bool \<Rightarrow> engine_options" where
  "run_options full =
     \<lparr>baseDir = ''.'', secretKey = ''sk'', picaBaseUrl = None, full_opt = Some full,
      verbose_opt = None\<rparr>"

definition fresh_state :: sync_state where
  "fresh_state =
     \<lparr>lastSyncAt = None, lastCursor = None, syncToken = None, totalSynced = 0,
      lastRunRecords = 0, status = Idle, lastError = None\<rparr>"

definition person :: "string \<Rightarrow> string \<Rightarrow> json" where
  "person i e = JObj [(''id'', JStr i), (''email'', JStr e)]"

definition two_pages :: script_world where
  "two_pages =
     \<lparr>replies =
        [ok_reply (JObj [(''items'', JArr [person ''p1'' ''a@x.io'', person ''p2'' ''b@x.io'']),
                         (''nextPageToken'', JStr ''abc'')]),
         ok_reply (JObj [(''items'', JArr [person ''p3'' ''c@x.io''])])],
      requests = [], stored = []\<rparr>"

definition zero_counts :: counters where
  "zero_counts = \<lparr>newCount = 0, updatedCount = 0, skippedCount = 0, errorCount = 0\<rparr>"

text \<open>A first run that stopped after its first page: no \<open>lastSyncAt\<close>, a checkpoint.\<close>

definition interrupted_state :: sync_state where
  "interrupted_state =
     \<lparr>lastSyncAt = None, lastCursor = Some ''abc'', syncToken = None, totalSynced = 0,
      lastRunRecords = 2, status = Error, lastError = Some ''Pica API error 500: boom''\<rparr>"

text \<open>A later run that stopped after its first page: an earlier run had completed.\<close>

definition resumable_state :: sync_state where
  "resumable_state =
     \<lparr>lastSyncAt = Some ''2025-12-01T08:00:00.000Z'', lastCursor = Some ''abc'',
      syncToken = Some ''tok-1'', totalSynced = 3, lastRunRecords = 2, status = Error,
      lastError = Some ''Pica API error 500: boom''\<rparr>"

definition last_page :: script_world where
  "last_page =
     \<lparr>replies = [ok_reply (JObj [(''items'', JArr [person ''p3'' ''c@x.io''])])],
      requests = [], stored = []\<rparr>"



definition token_mapping :: "string option \<Rightarrow> sync_mapping" where
  "token_mapping field =
     contacts_mapping
       \<lparr>incremental := Some \<lparr>inc_type = SyncTokenFilter, inc_param = Some ''syncToken'',
                              inc_template = None, inc_tokenField = field\<rparr>\<rparr>"

definition post_mapping :: "pagination_type \<Rightarrow> obj option \<Rightarrow> sync_mapping" where
  "post_mapping t body =
     contacts_mapping
       \<lparr>request := \<lparr>req_method = Some ''POST'', req_path = Some ''/people/query'',
                    req_queryParams = Some [(''limit'', JNum 2)], req_body = body,
                    req_headers = None\<rparr>,
        pagination := \<lparr>ptype = t, requestParam = Some ''offset'', responseField = None,
                       itemsField = Some ''items'', pageSize = Some 2\<rparr>\<rparr>"

text \<open>A last page that carries a new sync token beside its items.\<close>

definition token_pages :: script_world where
  "token_pages =
     \<lparr>replies =
        [ok_reply (JObj [(''items'', JArr [person ''p1'' ''a@x.io'', person ''p2'' ''b@x.io'']),
                         (''nextPageToken'', JStr ''abc'')]),
         ok_reply (JObj [(''items'', JArr [person ''p3'' ''c@x.io'']),
                         (''nextSyncToken'', JStr ''tok-2'')])],
      requests = [], stored = []\<rparr>"

text \<open>A \<open>POST\<close> list endpoint paged by \<open>Link\<close> headers, and two pages of it.\<close>

definition link_post_mapping :: sync_mapping where
  "link_post_mapping =
     contacts_mapping
       \<lparr>request := \<lparr>req_method = Some ''POST'', req_path = Some ''/people/query'',
                    req_queryParams = Some [(''per_page'', JNum 2)],
                    req_body = Some [(''filter'', JStr ''active'')],
                    req_headers = None\<rparr>,
        pagination := \<lparr>ptype = LinkHeader, requestParam = Some ''per_page'',
                       responseField = None, itemsField = Some ''items'', pageSize = None\<rparr>\<rparr>"

definition next_link :: string where
  \<open>next_link = ''<https://api.x.io/people/query?page=2>; rel="next"''\<close>

definition link_pages :: script_world where
  "link_pages =
     \<lparr>replies =
        [Inr \<lparr>response_data =
                JObj [(''items'', JArr [person ''p1'' ''a@x.io'', person ''p2'' ''b@x.io''])],
              response_headers = [(''link'', next_link)], response_status = 200\<rparr>,
         ok_reply (JObj [(''items'', JArr [person ''p3'' ''c@x.io''])])],
      requests = [], stored = []\<rparr>"

section \<open>Field mapping\<close>

lemma set_prop_plain:
  assumes "k \<noteq> ''__proto__''" and "proto d = JObjectPrototype"
  shows "set_prop d k v = Returns (d\<lparr>own_props := AList.update k v (own_props d)\<rparr>)"
  using assms by (simp add: set_prop_def not_writable_def)

lemma applyMapping_loop_plain:
  assumes "''__proto__'' \<notin> fst ` set m" and "proto r = JObjectPrototype"
  shows "\<exists>d. applyMapping_loop item m r = Returns d \<and> proto d = JObjectPrototype \<and>
             fst ` set (own_props d) = fst ` set m \<union> fst ` set (own_props r) \<and>
             (distinct (map fst m) \<longrightarrow>
                (\<forall>k. map_of (own_props d) k =
                   (case map_of m k of
                      Some p \<Rightarrow> Some (or_null (resolve item p))
                    | None \<Rightarrow> map_of (own_props r) k)))"
  using assms
proof (induction m arbitrary: r)
  case Nil
  then show ?case by simp
next
  case (Cons e m)
  obtain t p where e: "e = (t, p)" by (cases e)
  let ?r = "r\<lparr>own_props := AList.update t (or_null (resolve item p)) (own_props r)\<rparr>"
  from Cons.prems e have t: "t \<noteq> ''__proto__''" and m: "''__proto__'' \<notin> fst ` set m"
    by auto
  from set_prop_plain [OF t Cons.prems(2)]
  have step: "applyMapping_loop item (e # m) r = applyMapping_loop item m ?r"
    using e by simp
  have pr: "proto ?r = JObjectPrototype" using Cons.prems(2) by simp
  from Cons.IH [OF m pr] obtain d where
    d: "applyMapping_loop item m ?r = Returns d" "proto d = JObjectPrototype"
       "fst ` set (own_props d) = fst ` set m \<union> fst ` set (own_props ?r)"
       "distinct (map fst m) \<longrightarrow>
          (\<forall>k. map_of (own_props d) k =
             (case map_of m k of
                Some p \<Rightarrow> Some (or_null (resolve item p))
              | None \<Rightarrow> map_of (own_props ?r) k))"
    by blast
  have keys: "fst ` set (own_props d) = fst ` set (e # m) \<union> fst ` set (own_props r)"
    using d(3) e by (auto simp: dom_update)
  have vals: "distinct (map fst (e # m)) \<longrightarrow>
          (\<forall>k. map_of (own_props d) k =
             (case map_of (e # m) k of
                Some p \<Rightarrow> Some (or_null (resolve item p))
              | None \<Rightarrow> map_of (own_props r) k))"
  proof
    assume dist: "distinct (map fst (e # m))"
    with e have nt: "t \<notin> fst ` set m" and dm: "distinct (map fst m)" by auto
    from nt have mt: "map_of m t = None" by (simp add: map_of_eq_None_iff)
    from d(4) dm have "\<forall>k. map_of (own_props d) k =
             (case map_of m k of
                Some p \<Rightarrow> Some (or_null (resolve item p))
              | None \<Rightarrow> map_of (own_props ?r) k)"
      by blast
    then show "\<forall>k. map_of (own_props d) k =
             (case map_of (e # m) k of
                Some p \<Rightarrow> Some (or_null (resolve item p))
              | None \<Rightarrow> map_of (own_props r) k)"
      using e mt by (auto simp: update_conv' split: option.splits)
  qed
  from step d(1,2) keys vals show ?case by simp
qed

text \<open>
  C6, as the code has it. The keys of a mapping table are distinct (it is an object). For
  a table that has no target \<open>__proto__\<close>, \<open>applyMapping\<close> returns a data object with the
  ordinary prototype whose own keys are exactly the target keys of the table, and the
  value of a target is \<open>null\<close> if and only if \<open>resolve\<close> gives \<open>undefined\<close> or \<open>null\<close> for
  its source path: a path that does not resolve, or one that resolves to a \<open>null\<close> stored
  in the item.
\<close>

theorem applyMapping_total:
  assumes "distinct (map fst mapping)" and "''__proto__'' \<notin> fst ` set mapping"
    and "(target, path) \<in> set mapping"
  shows "\<exists>d. applyMapping item mapping = Returns d \<and> proto d = JObjectPrototype \<and>
             fst ` set (own_props d) = fst ` set mapping \<and>
             (\<exists>v. map_of (own_props d) target = Some v \<and>
                  (v = JNull \<longleftrightarrow> nullish (resolve item path)))"
proof -
  from assms have mp: "map_of mapping target = Some path" by simp
  let ?e = "\<lparr>own_props = [], proto = JObjectPrototype\<rparr>"
  have pe: "proto ?e = JObjectPrototype" by simp
  from applyMapping_loop_plain [OF assms(2) pe, of item] assms(1)
  obtain d where
    d: "applyMapping_loop item mapping ?e = Returns d" "proto d = JObjectPrototype"
       "fst ` set (own_props d) = fst ` set mapping \<union> fst ` set (own_props ?e)"
       "\<forall>k. map_of (own_props d) k =
          (case map_of mapping k of
             Some p \<Rightarrow> Some (or_null (resolve item p))
           | None \<Rightarrow> map_of (own_props ?e) k)"
    by blast
  have run: "applyMapping item mapping = Returns d"
    using d(1) by (simp add: applyMapping_def)
  have keys: "fst ` set (own_props d) = fst ` set mapping"
    using d(3) by simp
  from d(4) mp have "map_of (own_props d) target = Some (or_null (resolve item path))"
    by simp
  moreover have "or_null (resolve item path) = JNull \<longleftrightarrow> nullish (resolve item path)"
    by (cases "resolve item path") (simp_all add: or_null_def)
  ultimately show ?thesis using run d(2) keys by simp
qed

theorem applyMapping_total_witness:
  "distinct (map fst [(''subject'', ''payload.headers.Subject''), (''snippet'', ''snippet'')]) \<and>
   ''__proto__'' \<notin> fst ` set [(''subject'', ''payload.headers.Subject''), (''snippet'', ''snippet'')] \<and>
   (''snippet'', ''snippet'')
     \<in> set [(''subject'', ''payload.headers.Subject''), (''snippet'', ''snippet'')] \<and>
   \<not> nullish (resolve (JObj [(''payload'', JObj [(''headers'', JObj [(''Subject'', JStr ''Hello'')])])])
               ''payload.headers.Subject'') \<and>
   nullish (resolve (JObj [(''payload'', JObj [(''headers'', JObj [(''Subject'', JStr ''Hello'')])])])
               ''snippet'') \<and>
   applyMapping
     (JObj [(''payload'', JObj [(''headers'', JObj [(''Subject'', JStr ''Hello'')])])])
     [(''subject'', ''payload.headers.Subject''), (''snippet'', ''snippet'')]
     = Returns \<lparr>own_props = [(''subject'', JStr ''Hello''), (''snippet'', JNull)],
                proto = JObjectPrototype\<rparr>"
proof -
  let ?item = "JObj [(''payload'', JObj [(''headers'', JObj [(''Subject'', JStr ''Hello'')])])]"
  let ?table = "[(''subject'', ''payload.headers.Subject''), (''snippet'', ''snippet'')]"
  have r1: "resolve ?item ''payload.headers.Subject'' = JStr ''Hello''"
    by code_simp
  have r2: "resolve ?item ''snippet'' = JUndefined"
    by code_simp
  have run: "applyMapping ?item ?table
          = Returns \<lparr>own_props = [(''subject'', JStr ''Hello''), (''snippet'', JNull)],
                     proto = JObjectPrototype\<rparr>"
    by code_simp
  from applyMapping_total [of ?table "''snippet''" "''snippet''" ?item] run r2
  have "map_of (own_props \<lparr>own_props = [(''subject'', JStr ''Hello''), (''snippet'', JNull)],
                           proto = JObjectPrototype\<rparr>) ''snippet'' = Some JNull"
    by auto
  with r1 r2 run show ?thesis by simp
qed

text \<open>
  C6 as the specification words it fails where the item stores \<open>null\<close> under the source
  path: the path resolves (\<open>resolve\<close> does not give \<open>undefined\<close>), and the value is \<open>null\<close>.
  It also fails for a table with a target \<open>__proto__\<close>: the assignment goes to the setter
  of \<open>Object.prototype\<close> and the data has no such key.
\<close>

theorem applyMapping_null_counterexample:
  "applyMapping (JObj [(''email'', JNull)]) [(''contact'', ''email'')]
     = Returns \<lparr>own_props = [(''contact'', JNull)], proto = JObjectPrototype\<rparr> \<and>
   resolve (JObj [(''email'', JNull)]) ''email'' \<noteq> JUndefined \<and>
   applyMapping (JObj [(''a'', JNum 1)]) [(''__proto__'', ''a''), (''b'', ''a'')]
     = Returns \<lparr>own_props = [(''b'', JNum 1)], proto = JObjectPrototype\<rparr>"
  by code_simp

section \<open>Pagination\<close>

text \<open>
  C7. With pagination type \<open>offset\<close> and \<open>pageSize = 100\<close>, \<open>extractPage\<close> returns a page; a
  response that yields exactly 100 items gives \<open>done = false\<close> and a cursor that is not
  \<open>null\<close>; one that yields 99 items or fewer gives \<open>done = true\<close>, whatever the items are.
\<close>

theorem extractPage_offset_100:
  assumes "ptype config = Offset" and "pageSize config = Some 100"
  shows "\<exists>page. extractPage response config headers = Inr page \<and>
           (length (items page) = 100 \<longrightarrow> \<not> page_done page \<and> nextCursor page \<noteq> None) \<and>
           (length (items page) \<le> 99 \<longrightarrow> page_done page)"
  using assms by (auto simp: extractPage_def page_size_or_default_def Let_def)

theorem extractPage_offset_100_witness:
  "(\<exists>page. extractPage (JArr (replicate 100 (JObj [])))
             \<lparr>ptype = Offset, requestParam = Some ''offset'', responseField = None,
              itemsField = None, pageSize = Some 100\<rparr> None = Inr page \<and>
           length (items page) = 100 \<and> \<not> page_done page \<and> nextCursor page \<noteq> None) \<and>
   (\<exists>page. extractPage (JArr (replicate 99 (JObj [])))
             \<lparr>ptype = Offset, requestParam = Some ''offset'', responseField = None,
              itemsField = None, pageSize = Some 100\<rparr> None = Inr page \<and>
           length (items page) \<le> 99 \<and> page_done page)"
proof -
  let ?cfg = "\<lparr>ptype = Offset, requestParam = Some ''offset'', responseField = None,
               itemsField = None, pageSize = Some 100\<rparr>"
  have full_page: "\<And>page. extractPage (JArr (replicate 100 (JObj []))) ?cfg None = Inr page
                     \<Longrightarrow> length (items page) = 100"
    by (auto simp: extractPage_def extract_items_def page_size_or_default_def)
  have short_page: "\<And>page. extractPage (JArr (replicate 99 (JObj []))) ?cfg None = Inr page
                     \<Longrightarrow> length (items page) \<le> 99"
    by (auto simp: extractPage_def extract_items_def page_size_or_default_def)
  from extractPage_offset_100 [of ?cfg "JArr (replicate 100 (JObj []))" None] full_page
  have a: "\<exists>page. extractPage (JArr (replicate 100 (JObj []))) ?cfg None = Inr page \<and>
           length (items page) = 100 \<and> \<not> page_done page \<and> nextCursor page \<noteq> None"
    by auto
  from extractPage_offset_100 [of ?cfg "JArr (replicate 99 (JObj []))" None] short_page
  have b: "\<exists>page. extractPage (JArr (replicate 99 (JObj []))) ?cfg None = Inr page \<and>
           length (items page) \<le> 99 \<and> page_done page"
    by auto
  from a b show ?thesis by simp
qed

text \<open>
  C9. A response that is \<open>null\<close>, \<open>undefined\<close> or not an object (a boolean, a number, a
  string) gives no items, no cursor and \<open>done = true\<close>, for every configuration and every
  header map, and \<open>extractPage\<close> does not throw.
\<close>

theorem extractPage_non_object:
  assumes "response = JNull \<or> \<not> typeof_object response"
  shows "extractPage response config headers
           = Inr \<lparr>items = [], nextCursor = None, page_done = True\<rparr>"
  using assms by (auto simp: extractPage_def)

theorem extractPage_non_object_witness:
  "(JStr ''Bad Gateway'' = JNull \<or> \<not> typeof_object (JStr ''Bad Gateway'')) \<and>
   extractPage (JStr ''Bad Gateway'')
     \<lparr>ptype = Cursor, requestParam = Some ''pageToken'', responseField = Some ''nextPageToken'',
      itemsField = Some ''items'', pageSize = None\<rparr> (Some [(''link'', ''x'')])
     = Inr \<lparr>items = [], nextCursor = None, page_done = True\<rparr>"
  using extractPage_non_object
    [of "JStr ''Bad Gateway''"
        "\<lparr>ptype = Cursor, requestParam = Some ''pageToken'',
          responseField = Some ''nextPageToken'', itemsField = Some ''items'', pageSize = None\<rparr>"
        "Some [(''link'', ''x'')]"]
  by simp

lemma map_of_assign_other: "k' \<noteq> k \<Longrightarrow> map_of (assign k v ob) k' = map_of ob k'"
  by (simp add: assign_def update_conv')

text \<open>
  C10. \<open>applyCursor\<close> changes at most the key named by \<open>config.requestParam\<close>: every other
  key has the value it had in the input; and when \<open>requestParam\<close> is unset, or the type is
  \<open>link-header\<close> or \<open>none\<close>, the parameters returned are the input.
\<close>

theorem applyCursor_frame:
  "(\<forall>k. requestParam config \<noteq> Some k \<longrightarrow>
        map_of (applyCursor queryParams config cursor currentOffset) k = map_of queryParams k) \<and>
   (\<not> truthy_str (requestParam config) \<or> ptype config = LinkHeader
      \<or> ptype config = NoPagination \<longrightarrow>
        applyCursor queryParams config cursor currentOffset = queryParams)"
  by (cases "requestParam config")
     (auto simp: applyCursor_def Let_def map_of_assign_other split: pagination_type.splits)

theorem applyCursor_frame_witness:
  "requestParam \<lparr>ptype = PageNumber, requestParam = Some ''page'', responseField = None,
                 itemsField = None, pageSize = Some 50\<rparr> \<noteq> Some ''limit'' \<and>
   map_of (applyCursor [(''limit'', JNum 50), (''page'', JNum 1)]
             \<lparr>ptype = PageNumber, requestParam = Some ''page'', responseField = None,
              itemsField = None, pageSize = Some 50\<rparr> (Some ''continue'') 100) ''limit''
     = Some (JNum 50) \<and>
   map_of (applyCursor [(''limit'', JNum 50), (''page'', JNum 1)]
             \<lparr>ptype = PageNumber, requestParam = Some ''page'', responseField = None,
              itemsField = None, pageSize = Some 50\<rparr> (Some ''continue'') 100) ''page''
     = Some (JNum 3) \<and>
   applyCursor [(''limit'', JNum 50)]
     \<lparr>ptype = LinkHeader, requestParam = Some ''page'', responseField = None,
      itemsField = None, pageSize = None\<rparr> (Some ''https://api.x/next'') 100
     = [(''limit'', JNum 50)]"
proof -
  let ?pn = "\<lparr>ptype = PageNumber, requestParam = Some ''page'', responseField = None,
              itemsField = None, pageSize = Some 50\<rparr>"
  let ?lh = "\<lparr>ptype = LinkHeader, requestParam = Some ''page'', responseField = None,
              itemsField = None, pageSize = None\<rparr>"
  have changed: "map_of (applyCursor [(''limit'', JNum 50), (''page'', JNum 1)] ?pn
                   (Some ''continue'') 100) ''page'' = Some (JNum 3)"
    by (simp add: applyCursor_def page_size_or_default_def assign_def)
  show ?thesis
    using changed
      applyCursor_frame [of ?pn "[(''limit'', JNum 50), (''page'', JNum 1)]" "Some ''continue''" 100]
      applyCursor_frame [of ?lh "[(''limit'', JNum 50)]" "Some ''https://api.x/next''" 100]
    by simp
qed

section \<open>Natural keys\<close>

















section \<open>The run loop\<close>

lemma process_item_skipped:
  "skippedCount (fst (process_item env mapping options cw item)) = skippedCount (fst cw)"
  by (simp add: process_item_def item_failed_def Let_def
           split: prod.splits sum.splits completion.splits)

lemma foldl_process_item_skipped:
  "skippedCount (fst (foldl (process_item env mapping options) cw xs)) = skippedCount (fst cw)"
  by (induction xs arbitrary: cw) (simp_all add: process_item_skipped)

text \<open>One iteration of the loop, case by case.\<close>

lemma pull_loop_fetch_throws:
  assumes "fetch_page env mapping options cursor
             (page_request mapping full firstRun state cursor offset) w = (Inl msg, w1)"
  shows "pull_loop (Suc n) env mapping options full firstRun c cursor offset state w
           = Some (Aborted msg c state w1)"
  using assms by simp

lemma pull_loop_extract_throws:
  assumes "fetch_page env mapping options cursor
             (page_request mapping full firstRun state cursor offset) w = (Inr response, w1)"
    and "extractPage (response_data response) (pagination mapping)
           (Some (response_headers response)) = Inl msg"
  shows "pull_loop (Suc n) env mapping options full firstRun c cursor offset state w
           = Some (Aborted msg c state w1)"
  using assms by simp

lemma pull_loop_last_page:
  assumes "fetch_page env mapping options cursor
             (page_request mapping full firstRun state cursor offset) w = (Inr response, w1)"
    and "extractPage (response_data response) (pagination mapping)
           (Some (response_headers response)) = Inr page"
    and "foldl (process_item env mapping options) (c, w1) (items page) = (c', w2)"
    and "page_done page"
  shows "pull_loop (Suc n) env mapping options full firstRun c cursor offset state w
           = Some (Finished c' (nextCursor page) (state\<lparr>lastCursor := nextCursor page\<rparr>) w2)"
  using assms by (simp add: Let_def)

lemma pull_loop_next_page:
  assumes "fetch_page env mapping options cursor
             (page_request mapping full firstRun state cursor offset) w = (Inr response, w1)"
    and "extractPage (response_data response) (pagination mapping)
           (Some (response_headers response)) = Inr page"
    and "foldl (process_item env mapping options) (c, w1) (items page) = (c', w2)"
    and "\<not> page_done page"
  shows "pull_loop (Suc n) env mapping options full firstRun c cursor offset state w
           = pull_loop n env mapping options full firstRun c' (nextCursor page)
               (offset + int (length (items page))) (state\<lparr>lastCursor := nextCursor page\<rparr>) w2"
  using assms by (simp add: Let_def)

text \<open>
  An induction rule for the loop: a property of the way it ends holds if it holds for the
  three ways an iteration can end the loop and is passed on by an iteration that goes on.
\<close>

lemma pull_loop_cases:
  assumes "pull_loop (Suc n) env mapping options full firstRun c cursor offset state w = Some e"
  obtains
    (fetch_throws) msg w1 where
      "fetch_page env mapping options cursor
         (page_request mapping full firstRun state cursor offset) w = (Inl msg, w1)"
      "e = Aborted msg c state w1"
  | (extract_throws) response w1 msg where
      "fetch_page env mapping options cursor
         (page_request mapping full firstRun state cursor offset) w = (Inr response, w1)"
      "extractPage (response_data response) (pagination mapping)
         (Some (response_headers response)) = Inl msg"
      "e = Aborted msg c state w1"
  | (last_page) response w1 page c' w2 where
      "fetch_page env mapping options cursor
         (page_request mapping full firstRun state cursor offset) w = (Inr response, w1)"
      "extractPage (response_data response) (pagination mapping)
         (Some (response_headers response)) = Inr page"
      "foldl (process_item env mapping options) (c, w1) (items page) = (c', w2)"
      "page_done page"
      "e = Finished c' (nextCursor page) (state\<lparr>lastCursor := nextCursor page\<rparr>) w2"
  | (next_page) response w1 page c' w2 where
      "fetch_page env mapping options cursor
         (page_request mapping full firstRun state cursor offset) w = (Inr response, w1)"
      "extractPage (response_data response) (pagination mapping)
         (Some (response_headers response)) = Inr page"
      "foldl (process_item env mapping options) (c, w1) (items page) = (c', w2)"
      "\<not> page_done page"
      "pull_loop n env mapping options full firstRun c' (nextCursor page)
         (offset + int (length (items page))) (state\<lparr>lastCursor := nextCursor page\<rparr>) w2 = Some e"
proof -
  let ?req = "page_request mapping full firstRun state cursor offset"
  obtain r w1 where f: "fetch_page env mapping options cursor ?req w = (r, w1)"
    by (cases "fetch_page env mapping options cursor ?req w")
  show ?thesis
  proof (cases r)
    case (Inl msg)
    with assms f fetch_throws show ?thesis by auto
  next
    case (Inr response)
    note resp = Inr
    show ?thesis
    proof (cases "extractPage (response_data response) (pagination mapping)
                    (Some (response_headers response))")
      case (Inl msg)
      with assms f resp extract_throws show ?thesis by auto
    next
      case (Inr page)
      obtain c' w2 where
        p: "foldl (process_item env mapping options) (c, w1) (items page) = (c', w2)"
        by (cases "foldl (process_item env mapping options) (c, w1) (items page)")
      show ?thesis
      proof (cases "page_done page")
        case True
        with assms f resp Inr p last_page show ?thesis by (auto simp: Let_def)
      next
        case False
        with assms f resp Inr p next_page show ?thesis by (auto simp: Let_def)
      qed
    qed
  qed
qed

lemma pull_loop_skipped:
  "pull_loop n env mapping options full firstRun c cursor offset state w = Some e \<Longrightarrow>
   skippedCount (end_counters e) = skippedCount c"
proof (induction n arbitrary: c cursor offset state w)
  case 0
  then show ?case by simp
next
  case (Suc n)
  from Suc.prems show ?case
  proof (cases rule: pull_loop_cases)
    case (last_page response w1 page c' w2)
    with foldl_process_item_skipped [of env mapping options "(c, w1)" "items page"]
    show ?thesis by simp
  next
    case (next_page response w1 page c' w2)
    with foldl_process_item_skipped [of env mapping options "(c, w1)" "items page"]
      Suc.IH [OF next_page(5)]
    show ?thesis by simp
  qed simp_all
qed

lemma pull_loop_syncToken:
  "pull_loop n env mapping options full firstRun c cursor offset state w = Some e \<Longrightarrow>
   syncToken (end_state e) = syncToken state"
proof (induction n arbitrary: c cursor offset state w)
  case 0
  then show ?case by simp
next
  case (Suc n)
  from Suc.prems show ?case
  proof (cases rule: pull_loop_cases)
    case (next_page response w1 page c' w2)
    with Suc.IH [OF next_page(5)] show ?thesis by simp
  qed simp_all
qed

lemma extractPage_done_cursor:
  "extractPage response config headers = Inr page \<Longrightarrow> page_done page \<Longrightarrow>
   \<not> truthy_str (nextCursor page)"
  by (auto simp: extractPage_def Let_def split: pagination_type.splits if_splits sum.splits)

lemma pull_loop_finished:
  "pull_loop n env mapping options full firstRun c cursor offset state w
     = Some (Finished c' cursor' state' w') \<Longrightarrow>
   lastCursor state' = cursor' \<and> \<not> truthy_str cursor'"
proof (induction n arbitrary: c cursor offset state w)
  case 0
  then show ?case by simp
next
  case (Suc n)
  from Suc.prems show ?case
  proof (cases rule: pull_loop_cases)
    case (last_page response w1 page c2 w2)
    with extractPage_done_cursor [OF last_page(2) last_page(4)] show ?thesis by simp
  next
    case (next_page response w1 page c2 w2)
    with Suc.IH [OF next_page(5)] show ?thesis by simp
  qed simp_all
qed

text \<open>
  A page that is fetched and is not the last one takes the \<open>try\<close> statement to the next
  iteration, with the counters, the cursor, the offset and the state of that page: what
  holds of \<open>pull_try\<close> for all values of the loop variables holds at every iteration of
  a run.
\<close>

lemma pull_try_next_page:
  assumes "fetch_page env mapping options cursor
             (page_request mapping full firstRun state cursor offset) w = (Inr response, w1)"
    and "extractPage (response_data response) (pagination mapping)
           (Some (response_headers response)) = Inr page"
    and "foldl (process_item env mapping options) (c, w1) (items page) = (c', w2)"
    and "\<not> page_done page"
  shows "pull_try (Suc n) env mapping options full firstRun c cursor offset state w =
         pull_try n env mapping options full firstRun c' (nextCursor page)
           (offset + int (length (items page))) (state\<lparr>lastCursor := nextCursor page\<rparr>) w2"
  using pull_loop_next_page [OF assms] by (simp add: pull_try_def)

text \<open>
  C8. Every result that \<open>pull\<close> returns, completed or error, has \<open>skipped = 0\<close>.
\<close>

theorem pull_skipped_zero:
  assumes "pull fuel env mapping options loaded w = Some (res, st, w')"
  shows "result_skipped res = 0"
proof -
  let ?full = "case full_opt options of Some b \<Rightarrow> b | None \<Rightarrow> False"
  let ?c0 = "\<lparr>newCount = 0, updatedCount = 0, skippedCount = 0, errorCount = 0\<rparr>"
  let ?st = "loaded\<lparr>status := Running, lastError := None\<rparr>"
  let ?loop = "pull_loop fuel env mapping options ?full (isFirstRun loaded) ?c0
                 (initial_cursor ?full (isFirstRun loaded) ?st) 0 ?st w"
  from assms obtain e where e: "?loop = Some e"
    by (cases ?loop) (auto simp: pull_def pull_try_def Let_def)
  from pull_loop_skipped [OF e] have z: "skippedCount (end_counters e) = 0" by simp
  from assms e have "result_skipped res = skippedCount (end_counters e)"
    by (cases e) (auto simp: pull_def pull_try_def Let_def)
  with z show ?thesis by simp
qed

theorem pull_skipped_zero_witness:
  "pull 5 scripted contacts_mapping (run_options False) fresh_state two_pages \<noteq> None \<and>
   result_skipped
     (fst (the (pull 5 scripted contacts_mapping (run_options False) fresh_state two_pages))) = 0"
proof -
  have "pull 5 scripted contacts_mapping (run_options False) fresh_state two_pages \<noteq> None"
    by code_simp
  then obtain res st w' where
    run: "pull 5 scripted contacts_mapping (run_options False) fresh_state two_pages
            = Some (res, st, w')"
    by (cases "pull 5 scripted contacts_mapping (run_options False) fresh_state two_pages") auto
  from pull_skipped_zero [OF run] run show ?thesis by simp
qed



text \<open>
  C3. When a run completes and the incremental strategy is \<open>sync-token\<close> with a
  \<open>tokenField\<close>, the new \<open>state.syncToken\<close> is the cursor the loop ended with, and the loop
  ends only with a cursor that is \<open>null\<close> or empty: the run never stores a token, it
  erases the one it had. \<open>tokenField\<close> is tested and never read. With any other
  configuration \<open>syncToken\<close> keeps the value it was loaded with.
\<close>

theorem pull_sync_token:
  assumes "pull fuel env mapping options loaded w = Some (res, st, w')"
    and "result_status res = ResultCompleted"
  shows "if \<exists>inc. incremental mapping = Some inc \<and> inc_type inc = SyncTokenFilter
                  \<and> truthy_str (inc_tokenField inc)
         then \<not> truthy_str (syncToken st)
         else syncToken st = syncToken loaded"
proof -
  let ?full = "case full_opt options of Some b \<Rightarrow> b | None \<Rightarrow> False"
  let ?c0 = "\<lparr>newCount = 0, updatedCount = 0, skippedCount = 0, errorCount = 0\<rparr>"
  let ?st = "loaded\<lparr>status := Running, lastError := None\<rparr>"
  let ?loop = "pull_loop fuel env mapping options ?full (isFirstRun loaded) ?c0
                 (initial_cursor ?full (isFirstRun loaded) ?st) 0 ?st w"
  have cap: "captures_sync_token mapping \<longleftrightarrow>
             (\<exists>inc. incremental mapping = Some inc \<and> inc_type inc = SyncTokenFilter
                    \<and> truthy_str (inc_tokenField inc))"
    by (cases "incremental mapping") (simp_all add: captures_sync_token_def)
  from assms(1) obtain e where e: "?loop = Some e"
    by (cases ?loop) (auto simp: pull_def pull_try_def Let_def)
  show ?thesis
  proof (cases e)
    case (Finished c' cursor' state' w1)
    from pull_loop_finished [OF e [unfolded Finished]]
    have falsy: "\<not> truthy_str cursor'" by simp
    from pull_loop_syncToken [OF e] Finished
    have keep: "syncToken state' = syncToken loaded" by simp
    from assms(1) e Finished
    have "syncToken st = (if captures_sync_token mapping then cursor' else syncToken state')"
      by (auto simp: pull_def pull_try_def Let_def)
    with falsy keep cap show ?thesis by (auto simp del: truthy_str.simps)
  next
    case (Aborted msg c' state' w1)
    with assms(1) e have "result_status res = ResultError"
      by (auto simp: pull_def pull_try_def Let_def)
    with assms(2) show ?thesis by simp
  qed
qed

theorem pull_sync_token_witness:
  "inc_tokenField (the (incremental (token_mapping (Some ''nextSyncToken''))))
     = Some ''nextSyncToken'' \<and>
   syncToken resumable_state = Some ''tok-1'' \<and>
   response_data (projr (last (replies token_pages)))
     = JObj [(''items'', JArr [person ''p3'' ''c@x.io'']), (''nextSyncToken'', JStr ''tok-2'')] \<and>
   (case pull 5 scripted (token_mapping (Some ''nextSyncToken'')) (run_options False)
           (resumable_state\<lparr>lastCursor := None\<rparr>) token_pages of
      Some (res, st, w') \<Rightarrow>
        result_status res = ResultCompleted \<and> syncToken st = None \<and> replies w' = []
    | None \<Rightarrow> False) \<and>
   (case pull 5 scripted (token_mapping None) (run_options False)
           (resumable_state\<lparr>lastCursor := None\<rparr>) token_pages of
      Some (res, st, w') \<Rightarrow>
        result_status res = ResultCompleted \<and> syncToken st = Some ''tok-1''
    | None \<Rightarrow> False)"
proof -
  let ?st = "resumable_state\<lparr>lastCursor := None\<rparr>"
  let ?a = "pull 5 scripted (token_mapping (Some ''nextSyncToken'')) (run_options False) ?st
              token_pages"
  let ?b = "pull 5 scripted (token_mapping None) (run_options False) ?st token_pages"
  have fixture: "inc_tokenField (the (incremental (token_mapping (Some ''nextSyncToken''))))
                 = Some ''nextSyncToken'' \<and>
               syncToken resumable_state = Some ''tok-1'' \<and>
               response_data (projr (last (replies token_pages)))
                 = JObj [(''items'', JArr [person ''p3'' ''c@x.io'']),
                         (''nextSyncToken'', JStr ''tok-2'')]"
    by (simp add: token_mapping_def resumable_state_def token_pages_def ok_reply_def)
  have a: "case ?a of
      Some (res, st, w') \<Rightarrow>
        result_status res = ResultCompleted \<and> syncToken st = None \<and> replies w' = []
    | None \<Rightarrow> False"
    by code_simp
  have b: "case ?b of
      Some (res, st, w') \<Rightarrow> result_status res = ResultCompleted
    | None \<Rightarrow> False"
    by code_simp
  from a obtain res st w' where ra: "?a = Some (res, st, w')"
    and ca: "result_status res = ResultCompleted" and wa: "replies w' = []"
    and ta: "syncToken st = None"
    by (cases ?a) auto
  from b obtain res2 st2 w2 where rb: "?b = Some (res2, st2, w2)"
    and cb: "result_status res2 = ResultCompleted"
    by (cases ?b) auto
  from pull_sync_token [OF ra ca] ta have "\<not> truthy_str (syncToken st) \<and> syncToken st = None"
    by (simp add: token_mapping_def)
  moreover from pull_sync_token [OF rb cb] have "syncToken st2 = Some ''tok-1''"
    by (simp add: token_mapping_def resumable_state_def)
  ultimately show ?thesis
    using fixture ra ca wa rb cb by simp
qed

section \<open>The calls of a run\<close>

lemma perform_logged:
  "perform (logged env) call (w, log) =
     (fst (perform env call w), (snd (perform env call w), log @ [call]))"
  by (cases call) (simp_all add: perform_def logged_def)

lemma upsert_logged:
  "upsert (logged env) r (w, log) = (fst (upsert env r w), (snd (upsert env r w), log))"
  by (simp add: logged_def)

lemma addRef_logged:
  "addRef (logged env) recordId ref (w, log) =
     (fst (addRef env recordId ref w), (snd (addRef env recordId ref w), log))"
  by (simp add: logged_def)

lemma fetch_detail_logged:
  "\<exists>new. fetch_detail (logged env) mapping options item (w, log) =
           (fst (fetch_detail env mapping options item w),
            (snd (fetch_detail env mapping options item w), log @ new)) \<and>
         (\<forall>call \<in> set new. is_detail_call mapping options call)"
proof (cases "detail mapping")
  case None
  then have "fetch_detail (logged env) mapping options item (w, log) =
           (fst (fetch_detail env mapping options item w),
            (snd (fetch_detail env mapping options item w), log @ []))"
    by (simp add: fetch_detail_def)
  then show ?thesis by (intro exI [of _ "[]"]) simp
next
  case (Some d)
  show ?thesis
  proof (cases "extractId item (detail_idField d)")
    case Throws
    with Some have "fetch_detail (logged env) mapping options item (w, log) =
           (fst (fetch_detail env mapping options item w),
            (snd (fetch_detail env mapping options item w), log @ []))"
      by (simp add: fetch_detail_def)
    then show ?thesis by (intro exI [of _ "[]"]) simp
  next
    case (Returns detailId)
    show ?thesis
    proof (cases "truthy_str detailId")
      case False
      with Some Returns have "fetch_detail (logged env) mapping options item (w, log) =
           (fst (fetch_detail env mapping options item w),
            (snd (fetch_detail env mapping options item w), log @ []))"
        by (simp add: fetch_detail_def)
      then show ?thesis by (intro exI [of _ "[]"]) simp
    next
      case True
      let ?call = "detail_call mapping options d (the detailId)"
      from Some Returns True
      have "fetch_detail (logged env) mapping options item (w, log) =
           (fst (fetch_detail env mapping options item w),
            (snd (fetch_detail env mapping options item w), log @ [?call]))"
        by (simp add: fetch_detail_def perform_logged Let_def split_beta
                 split: sum.splits)
      moreover from Some have "\<forall>call \<in> set [?call]. is_detail_call mapping options call"
        by auto
      ultimately show ?thesis by blast
    qed
  qed
qed

lemma process_item_logged:
  "\<exists>new. process_item (logged env) mapping options (c, (w, log)) item =
           (fst (process_item env mapping options (c, w) item),
            (snd (process_item env mapping options (c, w) item), log @ new)) \<and>
         (\<forall>call \<in> set new. is_detail_call mapping options call)"
proof -
  from fetch_detail_logged [of env mapping options item w log] obtain new where
    fd: "fetch_detail (logged env) mapping options item (w, log) =
           (fst (fetch_detail env mapping options item w),
            (snd (fetch_detail env mapping options item w), log @ new))"
    and new: "\<forall>call \<in> set new. is_detail_call mapping options call"
    by blast
  show ?thesis
  proof (cases "\<exists>x. extractId item (ref_idField (externalRef mapping)) = Returns x \<and> truthy_str x")
    case False
    then have "process_item (logged env) mapping options (c, (w, log)) item =
           (fst (process_item env mapping options (c, w) item),
            (snd (process_item env mapping options (c, w) item), log @ []))"
      by (auto simp: process_item_def Let_def split: completion.splits)
    then show ?thesis by (intro exI [of _ "[]"]) simp
  next
    case True
    then obtain x where x: "extractId item (ref_idField (externalRef mapping)) = Returns x"
      "truthy_str x" by blast
    have "process_item (logged env) mapping options (c, (w, log)) item =
           (fst (process_item env mapping options (c, w) item),
            (snd (process_item env mapping options (c, w) item), log @ new))"
      using x fd
      by (simp add: process_item_def Let_def split_beta upsert_logged addRef_logged
               split: completion.splits sum.splits)
    with new show ?thesis by blast
  qed
qed

lemma foldl_process_item_logged:
  "\<exists>new. foldl (process_item (logged env) mapping options) (c, (w, log)) xs =
           (fst (foldl (process_item env mapping options) (c, w) xs),
            (snd (foldl (process_item env mapping options) (c, w) xs), log @ new)) \<and>
         (\<forall>call \<in> set new. is_detail_call mapping options call)"
proof (induction xs arbitrary: c w log)
  case Nil
  show ?case by (intro exI [of _ "[]"]) simp
next
  case (Cons x xs)
  from process_item_logged [of env mapping options c w log x] obtain new1 where
    1: "process_item (logged env) mapping options (c, (w, log)) x =
           (fst (process_item env mapping options (c, w) x),
            (snd (process_item env mapping options (c, w) x), log @ new1))"
    and n1: "\<forall>call \<in> set new1. is_detail_call mapping options call"
    by blast
  obtain c1 w1 where p: "process_item env mapping options (c, w) x = (c1, w1)"
    by (cases "process_item env mapping options (c, w) x")
  from Cons.IH [of c1 w1 "log @ new1"] obtain new2 where
    2: "foldl (process_item (logged env) mapping options) (c1, (w1, log @ new1)) xs =
           (fst (foldl (process_item env mapping options) (c1, w1) xs),
            (snd (foldl (process_item env mapping options) (c1, w1) xs), (log @ new1) @ new2))"
    and n2: "\<forall>call \<in> set new2. is_detail_call mapping options call"
    by blast
  from 1 2 p have "foldl (process_item (logged env) mapping options) (c, (w, log)) (x # xs) =
           (fst (foldl (process_item env mapping options) (c, w) (x # xs)),
            (snd (foldl (process_item env mapping options) (c, w) (x # xs)),
             log @ (new1 @ new2)))"
    by simp
  moreover from n1 n2 have "\<forall>call \<in> set (new1 @ new2). is_detail_call mapping options call"
    by auto
  ultimately show ?case by blast
qed

lemma fetch_page_logged:
  "fetch_page (logged env) mapping options cursor req (w, log) =
     (fst (fetch_page env mapping options cursor req w),
      (snd (fetch_page env mapping options cursor req w),
       log @ [page_call mapping options cursor req]))"
  by (simp add: fetch_page_def perform_logged)

lemma pull_loop_logged:
  assumes "pull_loop n (logged env) mapping options full firstRun c cursor offset state (w, log)
             = Some e"
  shows "pull_loop n env mapping options full firstRun c cursor offset state w = Some (unlog e) \<and>
         (\<exists>new. snd (end_world e) =
                  log @ page_call mapping options cursor
                          (page_request mapping full firstRun state cursor offset) # new \<and>
                (\<forall>call \<in> set new. is_detail_call mapping options call
                                   \<or> is_page_call mapping options full firstRun call))"
  using assms
proof (induction n arbitrary: c cursor offset state w log)
  case 0
  then show ?case by simp
next
  case (Suc n)
  let ?req = "page_request mapping full firstRun state cursor offset"
  let ?call = "page_call mapping options cursor ?req"
  obtain r w1 where f: "fetch_page env mapping options cursor ?req w = (r, w1)"
    by (cases "fetch_page env mapping options cursor ?req w")
  then have fl: "fetch_page (logged env) mapping options cursor ?req (w, log)
                   = (r, (w1, log @ [?call]))"
    by (simp add: fetch_page_logged)
  from Suc.prems show ?case
  proof (cases rule: pull_loop_cases)
    case (fetch_throws msg wl1)
    from fetch_throws(1) fl have r: "r = Inl msg" and wl1: "wl1 = (w1, log @ [?call])"
      by simp_all
    from f r have "pull_loop (Suc n) env mapping options full firstRun c cursor offset state w
                      = Some (Aborted msg c state w1)"
      by (simp add: pull_loop_fetch_throws)
    with fetch_throws(2) wl1
    have "pull_loop (Suc n) env mapping options full firstRun c cursor offset state w
                      = Some (unlog e)"
      by simp
    moreover from fetch_throws(2) wl1 have "snd (end_world e) = log @ ?call # []" by simp
    ultimately show ?thesis by (intro conjI exI [of _ "[]"]) simp_all
  next
    case (extract_throws response wl1 msg)
    from extract_throws(1) fl have r: "r = Inr response" and wl1: "wl1 = (w1, log @ [?call])"
      by simp_all
    from f r extract_throws(2)
    have "pull_loop (Suc n) env mapping options full firstRun c cursor offset state w
                      = Some (Aborted msg c state w1)"
      by (simp add: pull_loop_extract_throws)
    with extract_throws(3) wl1
    have "pull_loop (Suc n) env mapping options full firstRun c cursor offset state w
                      = Some (unlog e)"
      by simp
    moreover from extract_throws(3) wl1 have "snd (end_world e) = log @ ?call # []" by simp
    ultimately show ?thesis by (intro conjI exI [of _ "[]"]) simp_all
  next
    case (last_page response wl1 page c' wl2)
    from last_page(1) fl have r: "r = Inr response" and wl1: "wl1 = (w1, log @ [?call])"
      by simp_all
    from foldl_process_item_logged [of env mapping options c w1 "log @ [?call]" "items page"]
    obtain new where
      fo: "foldl (process_item (logged env) mapping options) (c, (w1, log @ [?call])) (items page) =
             (fst (foldl (process_item env mapping options) (c, w1) (items page)),
              (snd (foldl (process_item env mapping options) (c, w1) (items page)),
               (log @ [?call]) @ new))"
      and new: "\<forall>call \<in> set new. is_detail_call mapping options call"
      by blast
    from fo last_page(3) wl1
    have c': "fst (foldl (process_item env mapping options) (c, w1) (items page)) = c'"
      and wl2: "wl2 = (snd (foldl (process_item env mapping options) (c, w1) (items page)),
                       (log @ [?call]) @ new)"
      by simp_all
    have "pull_loop (Suc n) env mapping options full firstRun c cursor offset state w
            = Some (unlog e)"
      using f r last_page(2,4,5) c' wl2 by (simp add: Let_def split_beta)
    moreover have "snd (end_world e) = log @ ?call # new"
      using last_page(5) wl2 by simp
    ultimately show ?thesis using new by blast
  next
    case (next_page response wl1 page c' wl2)
    from next_page(1) fl have r: "r = Inr response" and wl1: "wl1 = (w1, log @ [?call])"
      by simp_all
    from foldl_process_item_logged [of env mapping options c w1 "log @ [?call]" "items page"]
    obtain new where
      fo: "foldl (process_item (logged env) mapping options) (c, (w1, log @ [?call])) (items page) =
             (fst (foldl (process_item env mapping options) (c, w1) (items page)),
              (snd (foldl (process_item env mapping options) (c, w1) (items page)),
               (log @ [?call]) @ new))"
      and new: "\<forall>call \<in> set new. is_detail_call mapping options call"
      by blast
    let ?w2 = "snd (foldl (process_item env mapping options) (c, w1) (items page))"
    let ?cur = "nextCursor page"
    let ?off = "offset + int (length (items page))"
    let ?st = "state\<lparr>lastCursor := nextCursor page\<rparr>"
    from fo next_page(3) wl1
    have c': "fst (foldl (process_item env mapping options) (c, w1) (items page)) = c'"
      and wl2: "wl2 = (?w2, (log @ [?call]) @ new)"
      by simp_all
    from next_page(5) wl2
    have rec: "pull_loop n (logged env) mapping options full firstRun c' ?cur ?off ?st
                 (?w2, (log @ [?call]) @ new) = Some e"
      by simp
    from Suc.IH [OF rec] obtain new2 where
      ih1: "pull_loop n env mapping options full firstRun c' ?cur ?off ?st ?w2 = Some (unlog e)"
      and ih2: "snd (end_world e) =
                  ((log @ [?call]) @ new) @
                  page_call mapping options ?cur (page_request mapping full firstRun ?st ?cur ?off)
                  # new2"
      and ih3: "\<forall>call \<in> set new2. is_detail_call mapping options call
                                   \<or> is_page_call mapping options full firstRun call"
      by blast
    have "pull_loop (Suc n) env mapping options full firstRun c cursor offset state w
            = Some (unlog e)"
      using f r next_page(2,4) c' ih1 by (simp add: Let_def split_beta)
    moreover have "snd (end_world e) =
        log @ ?call #
          (new @ page_call mapping options ?cur (page_request mapping full firstRun ?st ?cur ?off)
             # new2)"
      using ih2 by simp
    moreover have "\<forall>call \<in> set (new @ page_call mapping options ?cur
                                     (page_request mapping full firstRun ?st ?cur ?off) # new2).
                     is_detail_call mapping options call
                     \<or> is_page_call mapping options full firstRun call"
    proof -
      have pc: "is_page_call mapping options full firstRun
                  (page_call mapping options ?cur (page_request mapping full firstRun ?st ?cur ?off))"
        by blast
      show ?thesis
      proof
        fix call
        assume "call \<in> set (new @ page_call mapping options ?cur
                                     (page_request mapping full firstRun ?st ?cur ?off) # new2)"
        then consider "call \<in> set new"
          | "call = page_call mapping options ?cur (page_request mapping full firstRun ?st ?cur ?off)"
          | "call \<in> set new2"
          by auto
        then show "is_detail_call mapping options call
                   \<or> is_page_call mapping options full firstRun call"
        proof cases
          case 1
          with new show ?thesis by blast
        next
          case 2
          with pc show ?thesis by blast
        next
          case 3
          with ih3 show ?thesis by blast
        qed
      qed
    qed
    ultimately show ?thesis by blast
  qed
qed

lemma pull_loop_logged_ends:
  "pull_loop n env mapping options full firstRun c cursor offset state w = Some e \<Longrightarrow>
   \<exists>e'. pull_loop n (logged env) mapping options full firstRun c cursor offset state (w, log)
          = Some e'"
proof (induction n arbitrary: c cursor offset state w log)
  case 0
  then show ?case by simp
next
  case (Suc n)
  let ?req = "page_request mapping full firstRun state cursor offset"
  let ?call = "page_call mapping options cursor ?req"
  from Suc.prems show ?case
  proof (cases rule: pull_loop_cases)
    case (fetch_throws msg w1)
    then have "fetch_page (logged env) mapping options cursor ?req (w, log)
                 = (Inl msg, (w1, log @ [?call]))"
      by (simp add: fetch_page_logged)
    from pull_loop_fetch_throws [OF this] show ?thesis by blast
  next
    case (extract_throws response w1 msg)
    then have "fetch_page (logged env) mapping options cursor ?req (w, log)
                 = (Inr response, (w1, log @ [?call]))"
      by (simp add: fetch_page_logged)
    from pull_loop_extract_throws [OF this extract_throws(2)] show ?thesis by blast
  next
    case (last_page response w1 page c' w2)
    then have fl: "fetch_page (logged env) mapping options cursor ?req (w, log)
                 = (Inr response, (w1, log @ [?call]))"
      by (simp add: fetch_page_logged)
    obtain c2 wl2 where
      "foldl (process_item (logged env) mapping options) (c, (w1, log @ [?call])) (items page)
         = (c2, wl2)"
      by (cases "foldl (process_item (logged env) mapping options) (c, (w1, log @ [?call]))
                   (items page)")
    from pull_loop_last_page [OF fl last_page(2) this last_page(4)] show ?thesis by blast
  next
    case (next_page response w1 page c' w2)
    then have fl: "fetch_page (logged env) mapping options cursor ?req (w, log)
                 = (Inr response, (w1, log @ [?call]))"
      by (simp add: fetch_page_logged)
    from foldl_process_item_logged [of env mapping options c w1 "log @ [?call]" "items page"]
      next_page(3)
    obtain new where
      fo: "foldl (process_item (logged env) mapping options) (c, (w1, log @ [?call])) (items page)
             = (c', (w2, (log @ [?call]) @ new))"
      by auto
    from Suc.IH [OF next_page(5), of "(log @ [?call]) @ new"]
      pull_loop_next_page [OF fl next_page(2) fo next_page(4)]
    show ?thesis by simp
  qed
qed

text \<open>The log changes nothing: the logged run is the run, with its calls written down.\<close>

lemma pull_logged:
  assumes "pull fuel (logged env) mapping options loaded (w, log) = Some (res, st, (w', log'))"
  shows "pull fuel env mapping options loaded w = Some (res, st, w')"
proof -
  let ?full = "case full_opt options of Some b \<Rightarrow> b | None \<Rightarrow> False"
  let ?c0 = "\<lparr>newCount = 0, updatedCount = 0, skippedCount = 0, errorCount = 0\<rparr>"
  let ?st = "loaded\<lparr>status := Running, lastError := None\<rparr>"
  let ?cur = "initial_cursor ?full (isFirstRun loaded) ?st"
  let ?loop = "pull_loop fuel (logged env) mapping options ?full (isFirstRun loaded) ?c0
                 ?cur 0 ?st (w, log)"
  from assms obtain e where e: "?loop = Some e"
    by (cases ?loop) (auto simp: pull_def pull_try_def Let_def)
  from pull_loop_logged [OF e]
  have u: "pull_loop fuel env mapping options ?full (isFirstRun loaded) ?c0 ?cur 0 ?st w
             = Some (unlog e)"
    by blast
  from assms e u show ?thesis
    by (cases e) (auto simp: pull_def pull_try_def Let_def logged_def)
qed

lemma pull_log:
  assumes "pull fuel (logged env) mapping options loaded (w, log) = Some (res, st, (w', log'))"
  shows "\<exists>new. log' =
           log @ page_call mapping options
                   (initial_cursor (full_opt options = Some True) (isFirstRun loaded) loaded)
                   (page_request mapping (full_opt options = Some True) (isFirstRun loaded)
                      (loaded\<lparr>status := Running, lastError := None\<rparr>)
                      (initial_cursor (full_opt options = Some True) (isFirstRun loaded) loaded) 0)
                 # new \<and>
           (\<forall>call \<in> set new.
               is_detail_call mapping options call
               \<or> is_page_call mapping options (full_opt options = Some True)
                    (isFirstRun loaded) call)"
proof -
  let ?full = "case full_opt options of Some b \<Rightarrow> b | None \<Rightarrow> False"
  have f: "?full = (full_opt options = Some True)"
    by (cases "full_opt options") auto
  let ?c0 = "\<lparr>newCount = 0, updatedCount = 0, skippedCount = 0, errorCount = 0\<rparr>"
  let ?st = "loaded\<lparr>status := Running, lastError := None\<rparr>"
  let ?cur = "initial_cursor ?full (isFirstRun loaded) ?st"
  have cur: "initial_cursor (full_opt options = Some True) (isFirstRun loaded) ?st
               = initial_cursor (full_opt options = Some True) (isFirstRun loaded) loaded"
    by (simp add: initial_cursor_def)
  let ?loop = "pull_loop fuel (logged env) mapping options ?full (isFirstRun loaded) ?c0
                 ?cur 0 ?st (w, log)"
  from assms obtain e where e: "?loop = Some e"
    by (cases ?loop) (auto simp: pull_def pull_try_def Let_def)
  from assms e have w: "end_world e = (w', log')"
    by (cases e) (auto simp: pull_def pull_try_def Let_def)
  from pull_loop_logged [OF e] w show ?thesis
    by (simp add: f cur)
qed

section \<open>The requests of a run\<close>

lemma page_request_full:
  "page_request mapping True firstRun state cursor offset =
     move_pagination_param mapping
       (applyCursor (static_params mapping) (pagination mapping) cursor offset)"
  by (simp add: page_request_def page_queryParams_def static_params_def)

text \<open>
  C1, as the code has it, on the requests that a run makes (the log holds every call of
  the upstream, in order). The first call of a run is the request of the first page, at
  offset 0. Without \<open>full\<close>, its cursor is \<open>state.lastCursor\<close> exactly when \<open>lastSyncAt\<close> is
  set and \<open>lastCursor\<close> is not empty, and no cursor otherwise, whatever \<open>lastCursor\<close> is;
  its query parameters hold the incremental filter exactly when \<open>lastSyncAt\<close> is set and
  the mapping has an incremental strategy. With \<open>full\<close>, the first page is requested
  with no cursor, and every page request of the run carries the static query parameters
  with the pagination cursor applied: the incremental filter is applied to none of them,
  whatever the persisted state is.
\<close>

theorem pull_start:
  assumes "pull fuel (logged env) mapping options loaded (w, []) = Some (res, st, (w', log))"
  shows "pull fuel env mapping options loaded w = Some (res, st, w') \<and>
         (let cursor0 =
                (if full_opt options \<noteq> Some True \<and> truthy_str (lastSyncAt loaded)
                      \<and> truthy_str (lastCursor loaded)
                 then lastCursor loaded else None);
              params0 =
                (if full_opt options \<noteq> Some True \<and> truthy_str (lastSyncAt loaded)
                      \<and> incremental mapping \<noteq> None
                 then applyIncrementalFilter (static_params mapping) (the (incremental mapping))
                        (loaded\<lparr>status := Running, lastError := None\<rparr>)
                 else static_params mapping)
          in \<exists>rest. log =
                page_call mapping options cursor0
                  (move_pagination_param mapping
                     (applyCursor params0 (pagination mapping) cursor0 0)) # rest) \<and>
         (full_opt options = Some True \<longrightarrow>
            (\<forall>call \<in> set log.
                (\<exists>d detailId. detail mapping = Some d
                    \<and> call = detail_call mapping options d detailId)
                \<or> (\<exists>cursor offset.
                      call = page_call mapping options cursor
                               (move_pagination_param mapping
                                  (applyCursor (static_params mapping) (pagination mapping)
                                     cursor offset)))))"
proof (intro conjI impI)
  show "pull fuel env mapping options loaded w = Some (res, st, w')"
    using pull_logged [OF assms] .
next
  from pull_log [OF assms] obtain new where
    "log = page_call mapping options
             (initial_cursor (full_opt options = Some True) (isFirstRun loaded) loaded)
             (page_request mapping (full_opt options = Some True) (isFirstRun loaded)
                (loaded\<lparr>status := Running, lastError := None\<rparr>)
                (initial_cursor (full_opt options = Some True) (isFirstRun loaded) loaded) 0)
           # new"
    by auto
  then show "let cursor0 =
                (if full_opt options \<noteq> Some True \<and> truthy_str (lastSyncAt loaded)
                      \<and> truthy_str (lastCursor loaded)
                 then lastCursor loaded else None);
              params0 =
                (if full_opt options \<noteq> Some True \<and> truthy_str (lastSyncAt loaded)
                      \<and> incremental mapping \<noteq> None
                 then applyIncrementalFilter (static_params mapping) (the (incremental mapping))
                        (loaded\<lparr>status := Running, lastError := None\<rparr>)
                 else static_params mapping)
          in \<exists>rest. log =
                page_call mapping options cursor0
                  (move_pagination_param mapping
                     (applyCursor params0 (pagination mapping) cursor0 0)) # rest"
    by (auto simp: Let_def initial_cursor_def isFirstRun_def page_request_def
                   page_queryParams_def static_params_def)
next
  assume full: "full_opt options = Some True"
  from pull_log [OF assms] full obtain new where
    log: "log = page_call mapping options
             (initial_cursor True (isFirstRun loaded) loaded)
             (page_request mapping True (isFirstRun loaded)
                (loaded\<lparr>status := Running, lastError := None\<rparr>)
                (initial_cursor True (isFirstRun loaded) loaded) 0)
           # new"
    and new: "\<forall>call \<in> set new.
               is_detail_call mapping options call
               \<or> is_page_call mapping options True (isFirstRun loaded) call"
    by auto
  show "\<forall>call \<in> set log.
                (\<exists>d detailId. detail mapping = Some d
                    \<and> call = detail_call mapping options d detailId)
                \<or> (\<exists>cursor offset.
                      call = page_call mapping options cursor
                               (move_pagination_param mapping
                                  (applyCursor (static_params mapping) (pagination mapping)
                                     cursor offset)))"
  proof
    fix call
    assume "call \<in> set log"
    with log consider "call = page_call mapping options
             (initial_cursor True (isFirstRun loaded) loaded)
             (page_request mapping True (isFirstRun loaded)
                (loaded\<lparr>status := Running, lastError := None\<rparr>)
                (initial_cursor True (isFirstRun loaded) loaded) 0)" | "call \<in> set new"
      by auto
    then have "is_detail_call mapping options call
               \<or> is_page_call mapping options True (isFirstRun loaded) call"
    proof cases
      case 1
      then show ?thesis by blast
    next
      case 2
      with new show ?thesis by blast
    qed
    then show "(\<exists>d detailId. detail mapping = Some d
                    \<and> call = detail_call mapping options d detailId)
                \<or> (\<exists>cursor offset.
                      call = page_call mapping options cursor
                               (move_pagination_param mapping
                                  (applyCursor (static_params mapping) (pagination mapping)
                                     cursor offset)))"
      unfolding page_request_full by blast
  qed
qed

theorem pull_start_witness:
  "(case pull 5 (logged scripted) (token_mapping None) (run_options True) resumable_state
           (two_pages, []) of
      Some (res, st, (w', log)) \<Rightarrow>
        pull 5 scripted (token_mapping None) (run_options True) resumable_state two_pages
          = Some (res, st, w') \<and>
        map sent_queryParams log
          = [Some [(''limit'', JNum 2)],
             Some [(''limit'', JNum 2), (''pageToken'', JStr ''abc'')]]
    | None \<Rightarrow> False) \<and>
   (case pull 5 (logged scripted) (token_mapping None) (run_options False) resumable_state
           (last_page, []) of
      Some (res, st, (w', log)) \<Rightarrow>
        pull 5 scripted (token_mapping None) (run_options False) resumable_state last_page
          = Some (res, st, w') \<and>
        map sent_queryParams log
          = [Some [(''limit'', JNum 2), (''syncToken'', JStr ''tok-1''),
                   (''pageToken'', JStr ''abc'')]]
    | None \<Rightarrow> False)"
proof -
  let ?m = "token_mapping None"
  let ?full = "pull 5 (logged scripted) ?m (run_options True) resumable_state (two_pages, [])"
  let ?resume = "pull 5 (logged scripted) ?m (run_options False) resumable_state (last_page, [])"
  have full_log: "case ?full of
      Some (res, st, (w', log)) \<Rightarrow>
        map sent_queryParams log
          = [Some [(''limit'', JNum 2)],
             Some [(''limit'', JNum 2), (''pageToken'', JStr ''abc'')]]
    | None \<Rightarrow> False"
    by code_simp
  have resume_log: "case ?resume of
      Some (res, st, (w', log)) \<Rightarrow>
        map sent_queryParams log
          = [Some [(''limit'', JNum 2), (''syncToken'', JStr ''tok-1''),
                   (''pageToken'', JStr ''abc'')]]
    | None \<Rightarrow> False"
    by code_simp
  from full_log obtain res st w' log where full: "?full = Some (res, st, (w', log))"
    by (cases ?full) auto
  from resume_log obtain res2 st2 w2 log2 where resume: "?resume = Some (res2, st2, (w2, log2))"
    by (cases ?resume) auto
  from pull_start [OF full] full full_log pull_start [OF resume] resume resume_log
  show ?thesis by simp
qed

text \<open>
  C1 as the specification words it fails for a state with a checkpoint and no
  \<open>lastSyncAt\<close> (a first run that was interrupted): the run without \<open>full\<close> starts with no
  cursor, and its first request carries no page token.
\<close>

theorem pull_resume_counterexample:
  "lastCursor interrupted_state = Some ''abc'' \<and>
   lastSyncAt interrupted_state = None \<and>
   full_opt (run_options False) = Some False \<and>
   requestParam (pagination contacts_mapping) = Some ''pageToken'' \<and>
   (case pull 5 (logged scripted) contacts_mapping (run_options False) interrupted_state
           (two_pages, []) of
      Some (res, st, (w', log)) \<Rightarrow>
        map sent_queryParams log
          = [Some [(''limit'', JNum 2)],
             Some [(''limit'', JNum 2), (''pageToken'', JStr ''abc'')]]
    | None \<Rightarrow> False)"
  by code_simp

lemma move_pagination_param_post:
  assumes "req_method (request mapping) = Some ''POST''"
    and "requestParam (pagination mapping) = Some rp" and "rp \<noteq> []"
  shows "(req_body (request mapping) = None \<longrightarrow>
            move_pagination_param mapping q = (q, None)) \<and>
         (\<forall>b. req_body (request mapping) = Some b \<and> get_prop (JObj q) rp = JUndefined \<longrightarrow>
            move_pagination_param mapping q = (q, Some b)) \<and>
         (\<forall>b. req_body (request mapping) = Some b \<and> get_prop (JObj q) rp \<noteq> JUndefined \<longrightarrow>
            (\<exists>q' b'. move_pagination_param mapping q = (q', Some b') \<and>
               map_of q' rp = None \<and>
               (rp \<noteq> ''__proto__'' \<longrightarrow> map_of b' rp = Some (get_prop (JObj q) rp)) \<and>
               (\<forall>k. k \<noteq> rp \<longrightarrow> map_of q' k = map_of q k \<and> map_of b' k = map_of b k)))"
proof -
  have rp: "truthy_str (requestParam (pagination mapping))"
    using assms by simp
  have none: "req_body (request mapping) = None \<Longrightarrow>
                move_pagination_param mapping q = (q, None)"
    by (simp add: move_pagination_param_def)
  have undefined: "\<And>b. req_body (request mapping) = Some b \<Longrightarrow>
                get_prop (JObj q) rp = JUndefined \<Longrightarrow>
                move_pagination_param mapping q = (q, Some b)"
    using assms(2) by (simp add: move_pagination_param_def Let_def del: get_prop.simps)
  have moved: "\<And>b. req_body (request mapping) = Some b \<Longrightarrow>
                get_prop (JObj q) rp \<noteq> JUndefined \<Longrightarrow>
                move_pagination_param mapping q =
                  (AList.delete rp q, Some (assign rp (get_prop (JObj q) rp) b))"
    using assms(1,2) rp
    by (simp add: move_pagination_param_def Let_def del: get_prop.simps truthy_str.simps)
  have del: "map_of (AList.delete rp q) rp = None"
    "\<And>k. k \<noteq> rp \<Longrightarrow> map_of (AList.delete rp q) k = map_of q k"
    by (simp_all add: delete_conv')
  have asg: "\<And>v b. rp \<noteq> ''__proto__'' \<Longrightarrow> map_of (assign rp v b) rp = Some v"
    "\<And>v b k. k \<noteq> rp \<Longrightarrow> map_of (assign rp v b) k = map_of b k"
    by (simp_all add: assign_def update_conv')
  show ?thesis
    using none undefined moved del asg by (simp del: get_prop.simps)
qed

text \<open>
  C5, as the code has it, on the requests that a run makes. Take any call of
  \<open>picaRequest\<close> in a run that is not a detail request: it is the request of a page, with
  the query parameters \<open>q\<close> composed for that page. For a \<open>POST\<close> mapping with a
  configured \<open>requestParam\<close>: without a body template the request has no body and goes out
  with \<open>q\<close>; with a body template and no value under the parameter in \<open>q\<close>, \<open>q\<close>
  and the body template go out unchanged; with a body template and a value under the
  parameter, the parameter leaves the query parameters and enters the body with that value
  (a parameter named \<open>__proto__\<close> sets no key), and nothing else changes in either.
  The continuation pages of \<open>link-header\<close> pagination are calls of \<open>picaRequestUrl\<close>:
  they carry neither query parameters nor a body.
\<close>

theorem page_request_post:
  assumes "pull fuel (logged env) mapping options loaded (w, []) = Some (res, st, (w', log))"
    and "PicaRequest opts \<in> set log"
    and "\<not> (\<exists>d detailId. detail mapping = Some d
               \<and> PicaRequest opts = detail_call mapping options d detailId)"
    and "req_method (request mapping) = Some ''POST''"
    and "requestParam (pagination mapping) = Some rp" and "rp \<noteq> []"
  shows "\<exists>state cursor offset q.
           q = page_queryParams mapping (full_opt options = Some True)
                 (\<not> truthy_str (lastSyncAt loaded)) state cursor offset \<and>
           (req_body (request mapping) = None \<longrightarrow>
              opt_queryParams opts = Some q \<and> opt_body opts = None) \<and>
           (\<forall>b. req_body (request mapping) = Some b \<and> get_prop (JObj q) rp = JUndefined \<longrightarrow>
              opt_queryParams opts = Some q \<and> opt_body opts = Some b) \<and>
           (\<forall>b. req_body (request mapping) = Some b \<and> get_prop (JObj q) rp \<noteq> JUndefined \<longrightarrow>
              (\<exists>q' b'. opt_queryParams opts = Some q' \<and> opt_body opts = Some b' \<and>
                 map_of q' rp = None \<and>
                 (rp \<noteq> ''__proto__'' \<longrightarrow> map_of b' rp = Some (get_prop (JObj q) rp)) \<and>
                 (\<forall>k. k \<noteq> rp \<longrightarrow> map_of q' k = map_of q k \<and> map_of b' k = map_of b k)))"
proof -
  let ?full = "full_opt options = Some True"
  from pull_log [OF assms(1)] obtain new where
    log: "log = page_call mapping options (initial_cursor ?full (isFirstRun loaded) loaded)
             (page_request mapping ?full (isFirstRun loaded)
                (loaded\<lparr>status := Running, lastError := None\<rparr>)
                (initial_cursor ?full (isFirstRun loaded) loaded) 0)
           # new"
    and new: "\<forall>call \<in> set new.
               is_detail_call mapping options call
               \<or> is_page_call mapping options ?full (isFirstRun loaded) call"
    by auto
  from assms(2) log consider "PicaRequest opts = page_call mapping options
             (initial_cursor ?full (isFirstRun loaded) loaded)
             (page_request mapping ?full (isFirstRun loaded)
                (loaded\<lparr>status := Running, lastError := None\<rparr>)
                (initial_cursor ?full (isFirstRun loaded) loaded) 0)"
    | "PicaRequest opts \<in> set new"
    by auto
  then have "is_detail_call mapping options (PicaRequest opts)
        \<or> is_page_call mapping options ?full (isFirstRun loaded) (PicaRequest opts)"
  proof cases
    case 1
    then show ?thesis by blast
  next
    case 2
    with new show ?thesis by blast
  qed
  with assms(3) obtain state cursor offset where
    call: "PicaRequest opts = page_call mapping options cursor
             (page_request mapping ?full (isFirstRun loaded) state cursor offset)"
    by blast
  let ?q = "page_queryParams mapping ?full (\<not> truthy_str (lastSyncAt loaded)) state cursor offset"
  have req: "page_request mapping ?full (isFirstRun loaded) state cursor offset
               = move_pagination_param mapping ?q"
    by (simp add: page_request_def isFirstRun_def)
  from call req have opts: "opts =
             \<lparr>opt_secretKey = secretKey options,
              opt_connectionKey = connectionKey mapping,
              opt_actionId = actionId mapping,
              opt_baseUrl = base_url options,
              opt_method = req_method (request mapping),
              opt_path = req_path (request mapping),
              opt_queryParams = Some (fst (move_pagination_param mapping ?q)),
              opt_body = snd (move_pagination_param mapping ?q),
              opt_headers = req_headers (request mapping)\<rparr>"
    by (cases "ptype (pagination mapping) = LinkHeader \<and> truthy_str cursor")
       (simp_all add: page_call_def del: truthy_str.simps)
  have qp: "opt_queryParams opts = Some (fst (move_pagination_param mapping ?q))"
    and bd: "opt_body opts = snd (move_pagination_param mapping ?q)"
    by (simp_all add: opts)
  note post = move_pagination_param_post [OF assms(4,5,6), of ?q]
  have a: "req_body (request mapping) = None \<longrightarrow>
              opt_queryParams opts = Some ?q \<and> opt_body opts = None"
    using post qp bd by (simp del: get_prop.simps)
  have b: "\<forall>b. req_body (request mapping) = Some b \<and> get_prop (JObj ?q) rp = JUndefined \<longrightarrow>
              opt_queryParams opts = Some ?q \<and> opt_body opts = Some b"
    using post qp bd by (simp del: get_prop.simps)
  have c: "\<forall>b. req_body (request mapping) = Some b \<and> get_prop (JObj ?q) rp \<noteq> JUndefined \<longrightarrow>
              (\<exists>q' b'. opt_queryParams opts = Some q' \<and> opt_body opts = Some b' \<and>
                 map_of q' rp = None \<and>
                 (rp \<noteq> ''__proto__'' \<longrightarrow> map_of b' rp = Some (get_prop (JObj ?q) rp)) \<and>
                 (\<forall>k. k \<noteq> rp \<longrightarrow> map_of q' k = map_of ?q k \<and> map_of b' k = map_of b k))"
  proof (intro allI impI)
    fix b
    assume h: "req_body (request mapping) = Some b \<and> get_prop (JObj ?q) rp \<noteq> JUndefined"
    with post obtain q' b' where m: "move_pagination_param mapping ?q = (q', Some b')"
      and p: "map_of q' rp = None"
         "rp \<noteq> ''__proto__'' \<longrightarrow> map_of b' rp = Some (get_prop (JObj ?q) rp)"
         "\<forall>k. k \<noteq> rp \<longrightarrow> map_of q' k = map_of ?q k \<and> map_of b' k = map_of b k"
      by blast
    from m qp bd have "opt_queryParams opts = Some q'" "opt_body opts = Some b'"
      by simp_all
    with p show "\<exists>q' b'. opt_queryParams opts = Some q' \<and> opt_body opts = Some b' \<and>
                 map_of q' rp = None \<and>
                 (rp \<noteq> ''__proto__'' \<longrightarrow> map_of b' rp = Some (get_prop (JObj ?q) rp)) \<and>
                 (\<forall>k. k \<noteq> rp \<longrightarrow> map_of q' k = map_of ?q k \<and> map_of b' k = map_of b k)"
      by blast
  qed
  show ?thesis
    by (intro exI [of _ state] exI [of _ cursor] exI [of _ offset] exI [of _ ?q] conjI refl a b c)
qed

theorem page_request_post_witness:
  "(case pull 5 (logged scripted) (post_mapping Offset (Some [(''filter'', JStr ''active'')]))
           (run_options False) fresh_state (two_pages, []) of
      Some (res, st, (w', log)) \<Rightarrow>
        map sent_queryParams log = [Some [(''limit'', JNum 2)], Some [(''limit'', JNum 2)]] \<and>
        map sent_body log
          = [Some [(''filter'', JStr ''active''), (''offset'', JNum 0)],
             Some [(''filter'', JStr ''active''), (''offset'', JNum 2)]]
    | None \<Rightarrow> False)"
proof -
  let ?m = "post_mapping Offset (Some [(''filter'', JStr ''active'')])"
  let ?run = "pull 5 (logged scripted) ?m (run_options False) fresh_state (two_pages, [])"
  have sent: "case ?run of
      Some (res, st, (w', log)) \<Rightarrow>
        map sent_queryParams log = [Some [(''limit'', JNum 2)], Some [(''limit'', JNum 2)]] \<and>
        map sent_body log
          = [Some [(''filter'', JStr ''active''), (''offset'', JNum 0)],
             Some [(''filter'', JStr ''active''), (''offset'', JNum 2)]]
    | None \<Rightarrow> False"
    by code_simp
  then obtain res st w' log where run: "?run = Some (res, st, (w', log))"
    by (cases ?run) auto
  with sent obtain call rest where log: "log = call # rest"
    by (cases log) auto
  have "\<exists>url sk ck aid. call = PicaRequestUrl url sk ck aid \<Longrightarrow> False"
    using sent run log by auto
  then obtain opts where call: "call = PicaRequest opts"
    by (cases call) auto
  have "PicaRequest opts \<in> set log"
    by (simp add: log call)
  from page_request_post [OF run this, of "''offset''"] sent run
  show ?thesis
    by (simp add: post_mapping_def contacts_mapping_def)
qed

text \<open>
  C5 as the specification words it fails for a \<open>POST\<close> mapping without a body template:
  the pagination parameter stays in the query string and the request has no body. And a
  continuation page of \<open>link-header\<close> pagination is fetched from the URL of the \<open>Link\<close>
  header: no query parameters and no body are sent, rewritten or not.
\<close>

theorem page_request_post_counterexample:
  "req_method (request (post_mapping Offset None)) = Some ''POST'' \<and>
   requestParam (pagination (post_mapping Offset None)) = Some ''offset'' \<and>
   (case pull 5 (logged scripted) (post_mapping Offset None) (run_options False) fresh_state
           (two_pages, []) of
      Some (res, st, (w', log)) \<Rightarrow>
        map sent_queryParams log
          = [Some [(''limit'', JNum 2), (''offset'', JNum 0)],
             Some [(''limit'', JNum 2), (''offset'', JNum 2)]] \<and>
        map sent_body log = [None, None]
    | None \<Rightarrow> False) \<and>
   req_method (request link_post_mapping) = Some ''POST'' \<and>
   requestParam (pagination link_post_mapping) = Some ''per_page'' \<and>
   (case pull 5 (logged scripted) link_post_mapping (run_options False) fresh_state
           (link_pages, []) of
      Some (res, st, (w', log)) \<Rightarrow>
        map sent_queryParams log = [Some [], None] \<and>
        map sent_body log
          = [Some [(''filter'', JStr ''active''), (''per_page'', JNum 2)], None] \<and>
        log ! 1 = PicaRequestUrl ''https://api.x.io/people/query?page=2'' ''sk'' ''conn-1''
                    ''act-1''
    | None \<Rightarrow> False)"
  by code_simp

end
